theory Spec2Isabelle
  imports Main "HOL-Library.AList"
begin

section \<open>The editor objects\<close>

text \<open>
  A \<open>CodeEdit\<close> is a Python object that other objects refer to: an editor keeps the list of
  its clones, and a clone is handed to \<open>link\<close> by reference. Editors therefore live in a
  store, addressed by their identity, and so do the text documents, which \<open>link\<close> makes two
  editors share. The fields of the record are the private attributes set in
  \<open>CodeEdit.__init__\<close>; a property getter that only returns its attribute is the field
  itself.
\<close>

type_synonym addr = nat
type_synonym doc_ref = nat
type_synonym QColor = string
type_synonym QPoint = "int \<times> int"
type_synonym TextDecoration = nat

record QTextDocument =
  plain_text :: string
  show_tabs_and_spaces :: bool

record QTextCursor =
  position :: nat
  anchor :: nat

record QPalette =
  pal_base :: QColor
  pal_text :: QColor
  pal_highlight :: QColor
  pal_highlighted_text :: QColor

record FileManager =
  path :: string
  encoding :: string
  mimetype :: string

record Mode =
  mode_enabled :: bool
  mode_settings :: "string list"

record Panel =
  panel_enabled :: bool
  widget_enabled :: bool
  panel_settings :: "string list"

record CodeEdit =
  clones :: "addr list"
  document :: doc_ref
  text_cursor :: QTextCursor
  file_manager :: FileManager
  modes :: "Mode list"
  panels :: "Panel list"
  decorations :: "TextDecoration list"
  word_separators :: "string list"
  min_indent_column :: int
  save_on_focus_out :: bool
  use_spaces_instead_of_tabs :: bool
  whitespaces_foreground :: QColor
  selection_background :: QColor
  show_whitespaces :: bool
  foreground :: QColor
  selection_foreground :: QColor
  tab_length :: int
  zoom_level :: int
  font_size :: int
  background :: QColor
  font_family :: string
  widget_font :: "string \<times> int option"
  widget_palette :: QPalette

record world =
  editors :: "addr \<Rightarrow> CodeEdit"
  docs :: "doc_ref \<Rightarrow> QTextDocument"
  tooltip :: "(QPoint \<times> string \<times> addr) option"

definition upd_editor :: "addr \<Rightarrow> (CodeEdit \<Rightarrow> CodeEdit) \<Rightarrow> world \<Rightarrow> world" where
  "upd_editor a f s = s\<lparr>editors := (editors s)(a := f (editors s a))\<rparr>"

definition font_name :: "CodeEdit \<Rightarrow> string" where
  "font_name e = font_family e"

text \<open>
  \<open>_DEFAULT_FONT\<close> is chosen once from \<open>sys.platform\<close>, which is a parameter here.
\<close>

definition DEFAULT_FONT :: "string \<Rightarrow> string" where
  "DEFAULT_FONT sys_platform =
     (if sys_platform \<noteq> ''darwin'' then ''Source Code Pro'' else ''Monaco'')"

subsection \<open>Exceptions\<close>

text \<open>
  A call either returns or raises, and a raise does not undo what the call had done
  before: the state it leaves is the state at the raise. An outcome therefore carries the
  state in both cases, and the error when there is one.
\<close>

datatype error = KeyError | RecursionError | OverflowError

datatype outcome = Returns world | Raises error world

fun state_of :: "outcome \<Rightarrow> world" where
  "state_of (Returns s) = s"
| "state_of (Raises e s) = s"

fun raised :: "outcome \<Rightarrow> error option" where
  "raised (Returns s) = None"
| "raised (Raises e s) = Some e"

subsection \<open>Style and whitespace flags\<close>

text \<open>
  \<open>_reset_stylesheet\<close> first builds \<open>QFont(family, _font_size + _zoom_level)\<close>. The point
  size of a \<open>QFont\<close> is a C \<open>int\<close>: the binding raises OverflowError for a Python integer
  outside its range, and then nothing of the widget has been touched. A size that is zero
  or negative is accepted, and the font takes the toolkit's default size, written \<open>None\<close>
  here. After the font the palette gets the four colours. The style sheet string that is
  set as well depends on the running application and is left out.
  \<open>_set_whitespaces_flags\<close> sets or clears one flag of the document's text option.
\<close>

definition in_C_int :: "int \<Rightarrow> bool" where
  "in_C_int i = (- 2147483648 \<le> i \<and> i \<le> 2147483647)"

definition QFont :: "string \<Rightarrow> int \<Rightarrow> error + string \<times> int option" where
  "QFont family point_size =
     (if in_C_int point_size
      then Inr (family, if point_size \<le> 0 then None else Some point_size)
      else Inl OverflowError)"

definition reset_stylesheet :: "addr \<Rightarrow> world \<Rightarrow> outcome" where
  "reset_stylesheet a s =
     (case QFont (font_family (editors s a))
                 (font_size (editors s a) + zoom_level (editors s a)) of
        Inl err \<Rightarrow> Raises err s
      | Inr font \<Rightarrow>
          Returns (upd_editor a (\<lambda>e. e\<lparr>widget_font := font,
                          widget_palette := \<lparr>pal_base = background e, pal_text = foreground e,
                            pal_highlight = selection_background e,
                            pal_highlighted_text = selection_foreground e\<rparr>\<rparr>) s))"

definition set_whitespaces_flags :: "bool \<Rightarrow> addr \<Rightarrow> world \<Rightarrow> world" where
  "set_whitespaces_flags show a s =
     (let d = document (editors s a)
      in s\<lparr>docs := (docs s)(d := (docs s d)\<lparr>show_tabs_and_spaces := show\<rparr>)\<rparr>)"

subsection \<open>Zoom\<close>

text \<open>
  The \<open>zoom_level\<close> setter stores the value and does nothing else.
  \<open>zoom_in\<close> and \<open>zoom_out\<close> go through that setter and end with \<open>_reset_stylesheet\<close>;
  \<open>mark_whole_doc_dirty\<close>, which they call in between, asks the document layout to be
  redone and changes no attribute.
\<close>

definition set_zoom_level :: "int \<Rightarrow> addr \<Rightarrow> world \<Rightarrow> world" where
  "set_zoom_level v a s = upd_editor a (\<lambda>e. e\<lparr>zoom_level := v\<rparr>) s"

definition reset_zoom :: "addr \<Rightarrow> world \<Rightarrow> outcome" where
  "reset_zoom a s = reset_stylesheet a (upd_editor a (\<lambda>e. e\<lparr>zoom_level := 0\<rparr>) s)"

definition zoom_in :: "int \<Rightarrow> addr \<Rightarrow> world \<Rightarrow> outcome" where
  "zoom_in increment a s =
     reset_stylesheet a (set_zoom_level (zoom_level (editors s a) + increment) a s)"

definition zoom_out :: "int \<Rightarrow> addr \<Rightarrow> world \<Rightarrow> outcome" where
  "zoom_out decrement a s =
     (let s1 = set_zoom_level (zoom_level (editors s a) - decrement) a s;
          s2 = (if font_size (editors s1 a) + zoom_level (editors s1 a) \<le> 0
                then set_zoom_level (- font_size (editors s1 a) + 1) a s1
                else s1)
      in reset_stylesheet a s2)"

section \<open>Property setters\<close>

text \<open>
  Every configuration property has a setter of one shape:
  \<^verbatim>\<open>
    self._font_size = value
    self._reset_stylesheet()
    for c in self.clones:
        c.font_size = value
  \<close>
  (some without the call in the middle). The assignment inside the loop runs the same
  setter on the clone, which runs it on the clone's clones. Nothing in the code keeps the
  clone lists free of cycles, and on a cycle Python stops with RecursionError when the
  interpreter's recursion limit is reached. The first argument of \<open>assign_property\<close> is that
  limit, counted in nested setter calls. The \<open>store\<close> argument is the part of a setter
  before its loop: it returns the value handed on to the clones (the \<open>font_name\<close> setter
  replaces the empty string before it stores and hands on) and its outcome; when it
  raises, the loop is not reached.
\<close>

fun for_each :: "('a \<Rightarrow> world \<Rightarrow> outcome) \<Rightarrow> 'a list \<Rightarrow> world \<Rightarrow> outcome" where
  "for_each f [] s = Returns s"
| "for_each f (x # xs) s =
     (case f x s of Returns s' \<Rightarrow> for_each f xs s' | Raises e s' \<Rightarrow> Raises e s')"

fun assign_property ::
  "nat \<Rightarrow> ('v \<Rightarrow> addr \<Rightarrow> world \<Rightarrow> 'v \<times> outcome) \<Rightarrow> 'v \<Rightarrow> addr \<Rightarrow> world \<Rightarrow> outcome" where
  "assign_property 0 store v a s = Raises RecursionError s"
| "assign_property (Suc n) store v a s =
     (case store v a s of
        (v', Returns s') \<Rightarrow> for_each (assign_property n store v') (clones (editors s' a)) s'
      | (v', Raises e s') \<Rightarrow> Raises e s')"

definition store_use_spaces_instead_of_tabs :: "bool \<Rightarrow> addr \<Rightarrow> world \<Rightarrow> bool \<times> outcome" where
  "store_use_spaces_instead_of_tabs v a s =
     (v, Returns (upd_editor a (\<lambda>e. e\<lparr>use_spaces_instead_of_tabs := v\<rparr>) s))"

definition store_tab_length :: "int \<Rightarrow> addr \<Rightarrow> world \<Rightarrow> int \<times> outcome" where
  "store_tab_length v a s =
     (v, Returns (upd_editor a (\<lambda>e. e\<lparr>tab_length := v\<rparr>) s))"

definition store_min_indent_column :: "int \<Rightarrow> addr \<Rightarrow> world \<Rightarrow> int \<times> outcome" where
  "store_min_indent_column v a s =
     (v, Returns (upd_editor a (\<lambda>e. e\<lparr>min_indent_column := v\<rparr>) s))"

definition store_save_on_focus_out :: "bool \<Rightarrow> addr \<Rightarrow> world \<Rightarrow> bool \<times> outcome" where
  "store_save_on_focus_out v a s =
     (v, Returns (upd_editor a (\<lambda>e. e\<lparr>save_on_focus_out := v\<rparr>) s))"

definition store_show_whitespaces :: "bool \<Rightarrow> addr \<Rightarrow> world \<Rightarrow> bool \<times> outcome" where
  "store_show_whitespaces v a s =
     (v, Returns (set_whitespaces_flags v a (upd_editor a (\<lambda>e. e\<lparr>show_whitespaces := v\<rparr>) s)))"

definition store_font_name :: "string \<Rightarrow> string \<Rightarrow> addr \<Rightarrow> world \<Rightarrow> string \<times> outcome" where
  "store_font_name sys_platform v a s =
     (let v' = (if v = [] then DEFAULT_FONT sys_platform else v)
      in (v', reset_stylesheet a (upd_editor a (\<lambda>e. e\<lparr>font_family := v'\<rparr>) s)))"

definition store_font_size :: "int \<Rightarrow> addr \<Rightarrow> world \<Rightarrow> int \<times> outcome" where
  "store_font_size v a s =
     (v, reset_stylesheet a (upd_editor a (\<lambda>e. e\<lparr>font_size := v\<rparr>) s))"

definition store_background :: "QColor \<Rightarrow> addr \<Rightarrow> world \<Rightarrow> QColor \<times> outcome" where
  "store_background v a s =
     (v, reset_stylesheet a (upd_editor a (\<lambda>e. e\<lparr>background := v\<rparr>) s))"

definition store_foreground :: "QColor \<Rightarrow> addr \<Rightarrow> world \<Rightarrow> QColor \<times> outcome" where
  "store_foreground v a s =
     (v, reset_stylesheet a (upd_editor a (\<lambda>e. e\<lparr>foreground := v\<rparr>) s))"

definition store_whitespaces_foreground :: "QColor \<Rightarrow> addr \<Rightarrow> world \<Rightarrow> QColor \<times> outcome" where
  "store_whitespaces_foreground v a s =
     (v, Returns (upd_editor a (\<lambda>e. e\<lparr>whitespaces_foreground := v\<rparr>) s))"

definition store_selection_background :: "QColor \<Rightarrow> addr \<Rightarrow> world \<Rightarrow> QColor \<times> outcome" where
  "store_selection_background v a s =
     (v, reset_stylesheet a (upd_editor a (\<lambda>e. e\<lparr>selection_background := v\<rparr>) s))"

definition store_selection_foreground :: "QColor \<Rightarrow> addr \<Rightarrow> world \<Rightarrow> QColor \<times> outcome" where
  "store_selection_foreground v a s =
     (v, Returns (upd_editor a (\<lambda>e. e\<lparr>selection_foreground := v\<rparr>) s))"

definition set_use_spaces_instead_of_tabs :: "nat \<Rightarrow> bool \<Rightarrow> addr \<Rightarrow> world \<Rightarrow> outcome" where
  "set_use_spaces_instead_of_tabs n = assign_property n store_use_spaces_instead_of_tabs"

definition set_tab_length :: "nat \<Rightarrow> int \<Rightarrow> addr \<Rightarrow> world \<Rightarrow> outcome" where
  "set_tab_length n = assign_property n store_tab_length"

definition set_min_indent_column :: "nat \<Rightarrow> int \<Rightarrow> addr \<Rightarrow> world \<Rightarrow> outcome" where
  "set_min_indent_column n = assign_property n store_min_indent_column"

definition set_save_on_focus_out :: "nat \<Rightarrow> bool \<Rightarrow> addr \<Rightarrow> world \<Rightarrow> outcome" where
  "set_save_on_focus_out n = assign_property n store_save_on_focus_out"

definition set_show_whitespaces :: "nat \<Rightarrow> bool \<Rightarrow> addr \<Rightarrow> world \<Rightarrow> outcome" where
  "set_show_whitespaces n = assign_property n store_show_whitespaces"

definition set_font_name :: "nat \<Rightarrow> string \<Rightarrow> string \<Rightarrow> addr \<Rightarrow> world \<Rightarrow> outcome" where
  "set_font_name n sys_platform = assign_property n (store_font_name sys_platform)"

definition set_font_size :: "nat \<Rightarrow> int \<Rightarrow> addr \<Rightarrow> world \<Rightarrow> outcome" where
  "set_font_size n = assign_property n store_font_size"

definition set_background :: "nat \<Rightarrow> QColor \<Rightarrow> addr \<Rightarrow> world \<Rightarrow> outcome" where
  "set_background n = assign_property n store_background"

definition set_foreground :: "nat \<Rightarrow> QColor \<Rightarrow> addr \<Rightarrow> world \<Rightarrow> outcome" where
  "set_foreground n = assign_property n store_foreground"

definition set_whitespaces_foreground :: "nat \<Rightarrow> QColor \<Rightarrow> addr \<Rightarrow> world \<Rightarrow> outcome" where
  "set_whitespaces_foreground n = assign_property n store_whitespaces_foreground"

definition set_selection_background :: "nat \<Rightarrow> QColor \<Rightarrow> addr \<Rightarrow> world \<Rightarrow> outcome" where
  "set_selection_background n = assign_property n store_selection_background"

definition set_selection_foreground :: "nat \<Rightarrow> QColor \<Rightarrow> addr \<Rightarrow> world \<Rightarrow> outcome" where
  "set_selection_foreground n = assign_property n store_selection_foreground"

text \<open>
  The \<open>word_separators\<close> setter writes the clones' attribute directly, so it neither
  recurses nor fails.
\<close>

definition set_word_separators :: "string list \<Rightarrow> addr \<Rightarrow> world \<Rightarrow> world" where
  "set_word_separators v a s =
     (let s' = upd_editor a (\<lambda>e. e\<lparr>word_separators := v\<rparr>) s
      in fold (\<lambda>c. upd_editor c (\<lambda>e. e\<lparr>word_separators := v\<rparr>)) (clones (editors s' a)) s')"

text \<open>
  A setter stays clear of the RecursionError exactly when the clone lists below the editor
  are no deeper than the recursion limit allows.
\<close>

fun clone_depth_ok :: "nat \<Rightarrow> (addr \<Rightarrow> addr list) \<Rightarrow> addr \<Rightarrow> bool" where
  "clone_depth_ok 0 cl a = False"
| "clone_depth_ok (Suc n) cl a = list_all (clone_depth_ok n cl) (cl a)"

definition clones_of :: "world \<Rightarrow> addr \<Rightarrow> addr list" where
  "clones_of s a = clones (editors s a)"

section \<open>Tooltips\<close>

text \<open>
  \<open>show_tooltip\<close> hands a position, a text and the widget to \<open>QToolTip.showText\<close>; what is
  on display is the \<open>tooltip\<close> component of the state. Membership of the sender in the
  decorations is Python's \<open>in\<close> over the manager's list.
\<close>

definition show_tooltip ::
  "QPoint \<Rightarrow> string \<Rightarrow> TextDecoration option \<Rightarrow> addr \<Rightarrow> world \<Rightarrow> world" where
  "show_tooltip pos tip sender_deco a s =
     (if (case sender_deco of None \<Rightarrow> False
                              | Some d \<Rightarrow> d \<notin> set (decorations (editors s a)))
      then s
      else s\<lparr>tooltip := Some (pos, take 1024 tip, a)\<rparr>)"

section \<open>Linking a clone\<close>

text \<open>
  \<open>link\<close> copies the file information, makes the clone's document the original's, copies
  the enabled state of the modes and panels pairwise (\<open>zip\<close> stops at the shorter list),
  then assigns every property of the original to the clone through the setters above, and
  last lets the clone's file manager copy the original's settings. The three
  \<open>clone_settings\<close> methods belong to classes defined elsewhere and are parameters; each
  takes the receiver and the original and returns the receiver as it leaves it. Every
  right-hand side is read when its statement runs, so the state is threaded statement by
  statement, and a statement that raises ends the call with the state as it is then.
  \<open>link_document\<close> is the part of \<open>link\<close> up to the loop over the panels, in which nothing
  can raise.
\<close>

fun link_modes :: "(Mode \<Rightarrow> Mode \<Rightarrow> Mode) \<Rightarrow> Mode list \<Rightarrow> Mode list \<Rightarrow> Mode list" where
  "link_modes clone_settings (original_mode # os) (mode # ms) =
     clone_settings (mode\<lparr>mode_enabled := mode_enabled original_mode\<rparr>) original_mode
       # link_modes clone_settings os ms"
| "link_modes clone_settings os ms = ms"

fun link_panels :: "(Panel \<Rightarrow> Panel \<Rightarrow> Panel) \<Rightarrow> Panel list \<Rightarrow> Panel list \<Rightarrow> Panel list" where
  "link_panels clone_settings (original_panel # os) (panel # ps) =
     clone_settings (panel\<lparr>panel_enabled := widget_enabled original_panel\<rparr>) original_panel
       # link_panels clone_settings os ps"
| "link_panels clone_settings os ps = ps"

definition link_document ::
  "(Mode \<Rightarrow> Mode \<Rightarrow> Mode) \<Rightarrow> (Panel \<Rightarrow> Panel \<Rightarrow> Panel) \<Rightarrow> addr \<Rightarrow> addr \<Rightarrow> world \<Rightarrow> world" where
  "link_document mode_clone_settings panel_clone_settings self clone s0 =
     (let s = upd_editor clone (\<lambda>c. c\<lparr>file_manager :=
                (file_manager c)\<lparr>path := path (file_manager (editors s0 self))\<rparr>\<rparr>) s0;
          s = upd_editor clone (\<lambda>c. c\<lparr>file_manager :=
                (file_manager c)\<lparr>encoding := encoding (file_manager (editors s self))\<rparr>\<rparr>) s;
          s = upd_editor clone (\<lambda>c. c\<lparr>file_manager :=
                (file_manager c)\<lparr>mimetype := mimetype (file_manager (editors s self))\<rparr>\<rparr>) s;
          s = upd_editor clone (\<lambda>c. c\<lparr>document := document (editors s self)\<rparr>) s;
          s = upd_editor clone (\<lambda>c. c\<lparr>modes :=
                link_modes mode_clone_settings (modes (editors s self)) (modes c)\<rparr>) s
      in upd_editor clone (\<lambda>c. c\<lparr>panels :=
                link_panels panel_clone_settings (panels (editors s self)) (panels c)\<rparr>) s)"

text \<open>
  The statements of \<open>link\<close> after that, in the order of the source: the properties up to
  \<open>font_size\<close>, the zoom level, and the rest.
\<close>

definition link_properties ::
  "nat \<Rightarrow> string \<Rightarrow> addr \<Rightarrow> addr \<Rightarrow> (world \<Rightarrow> outcome) list" where
  "link_properties n sys_platform self clone =
     [\<lambda>s. set_use_spaces_instead_of_tabs n
             (use_spaces_instead_of_tabs (editors s self)) clone s,
      \<lambda>s. set_tab_length n (tab_length (editors s self)) clone s,
      \<lambda>s. set_min_indent_column n (min_indent_column (editors s self)) clone s,
      \<lambda>s. set_save_on_focus_out n (save_on_focus_out (editors s self)) clone s,
      \<lambda>s. set_show_whitespaces n (show_whitespaces (editors s self)) clone s,
      \<lambda>s. set_font_name n sys_platform (font_name (editors s self)) clone s,
      \<lambda>s. set_font_size n (font_size (editors s self)) clone s]"

definition link_zoom_level :: "addr \<Rightarrow> addr \<Rightarrow> world \<Rightarrow> outcome" where
  "link_zoom_level self clone s =
     Returns (set_zoom_level (zoom_level (editors s self)) clone s)"

definition link_style ::
  "nat \<Rightarrow> (FileManager \<Rightarrow> FileManager \<Rightarrow> FileManager) \<Rightarrow> addr \<Rightarrow> addr \<Rightarrow>
   (world \<Rightarrow> outcome) list" where
  "link_style n file_clone_settings self clone =
     [\<lambda>s. set_background n (background (editors s self)) clone s,
      \<lambda>s. set_foreground n (foreground (editors s self)) clone s,
      \<lambda>s. set_whitespaces_foreground n (whitespaces_foreground (editors s self)) clone s,
      \<lambda>s. set_selection_background n (selection_background (editors s self)) clone s,
      \<lambda>s. set_selection_foreground n (selection_foreground (editors s self)) clone s,
      \<lambda>s. Returns (set_word_separators (word_separators (editors s self)) clone s),
      \<lambda>s. Returns (upd_editor clone (\<lambda>c. c\<lparr>file_manager :=
             file_clone_settings (file_manager c) (file_manager (editors s self))\<rparr>) s)]"

definition link ::
  "nat \<Rightarrow> string \<Rightarrow> (Mode \<Rightarrow> Mode \<Rightarrow> Mode) \<Rightarrow> (Panel \<Rightarrow> Panel \<Rightarrow> Panel) \<Rightarrow>
   (FileManager \<Rightarrow> FileManager \<Rightarrow> FileManager) \<Rightarrow> addr \<Rightarrow> addr \<Rightarrow> world \<Rightarrow> outcome" where
  "link n sys_platform mode_clone_settings panel_clone_settings file_clone_settings
        self clone s0 =
     for_each (\<lambda>statement. statement)
       (link_properties n sys_platform self clone
        @ [link_zoom_level self clone]
        @ link_style n file_clone_settings self clone)
       (link_document mode_clone_settings panel_clone_settings self clone s0)"

text \<open>
  A widget shows and edits the text of the document it holds: \<open>toPlainText\<close> reads it, and
  any edit made through the widget replaces it by some function of the old text.
\<close>

definition toPlainText :: "addr \<Rightarrow> world \<Rightarrow> string" where
  "toPlainText a s = plain_text (docs s (document (editors s a)))"

definition edit_through :: "addr \<Rightarrow> (string \<Rightarrow> string) \<Rightarrow> world \<Rightarrow> world" where
  "edit_through a f s =
     (let d = document (editors s a)
      in s\<lparr>docs := (docs s)(d := (docs s d)\<lparr>plain_text := f (plain_text (docs s d))\<rparr>)\<rparr>)"

text \<open>
  What \<open>link\<close> is followed through: per editor the clone list, the document and the zoom
  level, and per document the text.
\<close>

definition link_frame :: "world \<Rightarrow> addr \<Rightarrow> addr list \<times> doc_ref \<times> int" where
  "link_frame s x = (clones (editors s x), document (editors s x), zoom_level (editors s x))"

definition doc_texts :: "world \<Rightarrow> doc_ref \<Rightarrow> string" where
  "doc_texts s d = plain_text (docs s d)"

section \<open>Text cursors\<close>

text \<open>
  A document is its text, with the line feed between blocks; a cursor is a position and an
  anchor into it, and the selection is what lies between the two. The editor never wraps
  lines (\<open>setLineWrapMode(NoWrap)\<close> in the constructor), so a line is a block.
  \<open>movePosition\<close> repeats its operation \<open>n\<close> times and stops where the operation cannot
  move; a count that is not positive repeats it zero times and leaves the cursor as it is.
\<close>

datatype MoveMode = MoveAnchor | KeepAnchor

definition newline :: char where
  "newline = CHR 0x0A"

definition block_start :: "string \<Rightarrow> nat \<Rightarrow> nat" where
  "block_start txt p = p - length (takeWhile (\<lambda>c. c \<noteq> newline) (rev (take p txt)))"

definition block_end :: "string \<Rightarrow> nat \<Rightarrow> nat" where
  "block_end txt p = p + length (takeWhile (\<lambda>c. c \<noteq> newline) (drop p txt))"

definition positionInBlock :: "string \<Rightarrow> QTextCursor \<Rightarrow> nat" where
  "positionInBlock txt tc = position tc - block_start txt (position tc)"

definition setPosition :: "nat \<Rightarrow> MoveMode \<Rightarrow> QTextCursor \<Rightarrow> QTextCursor" where
  "setPosition p m tc =
     (case m of MoveAnchor \<Rightarrow> tc\<lparr>position := p, anchor := p\<rparr>
              | KeepAnchor \<Rightarrow> tc\<lparr>position := p\<rparr>)"

definition move_Left :: "MoveMode \<Rightarrow> int \<Rightarrow> QTextCursor \<Rightarrow> QTextCursor" where
  "move_Left m n tc = (if 0 < n then setPosition (position tc - nat n) m tc else tc)"

definition move_StartOfBlock :: "MoveMode \<Rightarrow> string \<Rightarrow> QTextCursor \<Rightarrow> QTextCursor" where
  "move_StartOfBlock m txt tc = setPosition (block_start txt (position tc)) m tc"

definition move_StartOfLine :: "MoveMode \<Rightarrow> string \<Rightarrow> QTextCursor \<Rightarrow> QTextCursor" where
  "move_StartOfLine m txt tc = setPosition (block_start txt (position tc)) m tc"

definition move_EndOfLine :: "MoveMode \<Rightarrow> string \<Rightarrow> QTextCursor \<Rightarrow> QTextCursor" where
  "move_EndOfLine m txt tc = setPosition (block_end txt (position tc)) m tc"

definition select_LineUnderCursor :: "string \<Rightarrow> QTextCursor \<Rightarrow> QTextCursor" where
  "select_LineUnderCursor txt tc =
     move_EndOfLine KeepAnchor txt (move_StartOfLine MoveAnchor txt tc)"

definition selectedText :: "string \<Rightarrow> QTextCursor \<Rightarrow> string" where
  "selectedText txt tc =
     (let lo = min (position tc) (anchor tc); hi = max (position tc) (anchor tc)
      in take (hi - lo) (drop lo txt))"

definition insertText :: "string \<Rightarrow> string \<times> QTextCursor \<Rightarrow> string \<times> QTextCursor" where
  "insertText t = (\<lambda>(txt, tc).
     (let lo = min (position tc) (anchor tc); hi = max (position tc) (anchor tc)
      in (take lo txt @ t @ drop hi txt, tc\<lparr>position := lo + length t, anchor := lo + length t\<rparr>)))"

text \<open>
  Where \<open>WordRight\<close> lands is decided by the toolkit's word-boundary rules; the function
  giving the new position from the text and the old position is a parameter.
\<close>

definition move_WordRight ::
  "(string \<Rightarrow> nat \<Rightarrow> nat) \<Rightarrow> MoveMode \<Rightarrow> string \<Rightarrow> QTextCursor \<Rightarrow> QTextCursor" where
  "move_WordRight word_right m txt tc = setPosition (word_right txt (position tc)) m tc"

text \<open>
  Python's white space among the characters a \<open>char\<close> can hold: what \<open>\s\<close> matches in a
  text pattern and what \<open>lstrip\<close> removes.
\<close>

definition py_isspace :: "char \<Rightarrow> bool" where
  "py_isspace c = (of_char c \<in> set [9, 10, 11, 12, 13, 28, 29, 30, 31, 32, 133, 160 :: nat])"

section \<open>The home key\<close>

text \<open>
  Modelled from the spec: \<open>TextHelper.line_indent\<close>, defined outside these sources, is
  the indentation width of the line under the editor's cursor, the number of white-space
  characters the line begins with.
\<close>

definition line_text :: "string \<Rightarrow> QTextCursor \<Rightarrow> string" where
  "line_text txt tc =
     take (block_end txt (position tc) - block_start txt (position tc))
          (drop (block_start txt (position tc)) txt)"

definition line_indent :: "string \<Rightarrow> QTextCursor \<Rightarrow> nat" where
  "line_indent txt tc = length (takeWhile py_isspace (line_text txt tc))"

datatype Key = Key_Return | Key_Enter | Key_Tab | Key_Backtab | Key_Home | Key_Other nat

record QKeyEvent =
  key :: Key
  accepted :: bool

definition do_home_key :: "QKeyEvent option \<Rightarrow> bool \<Rightarrow> addr \<Rightarrow> world \<Rightarrow> QKeyEvent option \<times> world" where
  "do_home_key event select a s =
     (let txt = toPlainText a s;
          delta = int (positionInBlock txt (text_cursor (editors s a)))
                  - int (line_indent txt (text_cursor (editors s a)));
          cursor = text_cursor (editors s a);
          move = (if select then KeepAnchor else MoveAnchor);
          cursor = (if delta \<noteq> 0 then move_Left move delta cursor
                    else move_StartOfBlock move txt cursor)
      in (map_option (\<lambda>ev. ev\<lparr>accepted := True\<rparr>) event,
          upd_editor a (\<lambda>e. e\<lparr>text_cursor := cursor\<rparr>) s))"

section \<open>Automatic indentation\<close>

record AutoIndentMode =
  enabled :: bool
  min_indent :: string

definition get_indent ::
  "AutoIndentMode \<Rightarrow> string \<Rightarrow> QTextCursor \<Rightarrow> (string \<times> string) \<times> QTextCursor" where
  "get_indent mode txt tc =
     (let pos = position tc;
          tc = move_StartOfLine MoveAnchor txt tc;
          tc = select_LineUnderCursor txt tc;
          s = selectedText txt tc;
          indent = takeWhile py_isspace s;
          tc = setPosition pos MoveAnchor tc;
          indent = (if length indent < length (min_indent mode) then min_indent mode
                    else indent)
      in (([], indent), tc))"

text \<open>
  The handler edits the document through a copy of the editor's cursor: its state is the
  event, the text and that copy.
\<close>

definition on_key_pressed ::
  "(string \<Rightarrow> nat \<Rightarrow> nat) \<Rightarrow> AutoIndentMode \<Rightarrow> QKeyEvent \<Rightarrow> string \<times> QTextCursor \<Rightarrow>
   QKeyEvent \<times> string \<times> QTextCursor" where
  "on_key_pressed word_right mode event = (\<lambda>(txt, editor_cursor).
     if accepted event then (event, txt, editor_cursor)
     else if key event = Key_Return \<or> key event = Key_Enter then
       (let tc = editor_cursor;
            ((pre, post), tc) = get_indent mode txt tc;
            (txt, tc) = insertText (pre @ [newline] @ post) (txt, tc);
            tc = move_WordRight word_right KeepAnchor txt tc;
            sel = selectedText txt tc;
            (txt, tc) =
              (if take 1 sel = '' '' then
                 (let new_txt = filter (\<lambda>c. c \<noteq> CHR '' '') sel
                  in if length new_txt < length sel then insertText new_txt (txt, tc)
                     else (txt, tc))
               else (txt, tc))
        in (event\<lparr>accepted := True\<rparr>, txt, tc))
     else (event, txt, editor_cursor))"

text \<open>
  \<open>_on_state_changed\<close> connects the handler to the editor's \<open>key_pressed\<close> signal when
  the mode is enabled and disconnects it otherwise, so a key press reaches the handler
  exactly when the mode is enabled.
\<close>

definition key_pressed ::
  "(string \<Rightarrow> nat \<Rightarrow> nat) \<Rightarrow> AutoIndentMode \<Rightarrow> QKeyEvent \<Rightarrow> string \<times> QTextCursor \<Rightarrow>
   QKeyEvent \<times> string \<times> QTextCursor" where
  "key_pressed word_right mode event st =
     (if enabled mode then on_key_pressed word_right mode event st
      else (event, fst st, snd st))"

section \<open>The registries of modes and panels\<close>

text \<open>
  Modelled from the spec: the classes \<open>ModesManager\<close> and \<open>PanelsManager\<close> behind
  \<open>editor.modes\<close> and \<open>editor.panels\<close> are not among these sources. The spec calls them
  plugin registries with install, retrieve and remove, where removing an unregistered mode
  or panel is a \<open>KeyError\<close>, and says that a panel is rendered in one of the editor's four
  margin zones; the tests address an installed object by its class. A registry is
  therefore a dictionary from the class name to the installed object: \<open>append\<close> stores the
  object under its class (a panel together with the zone it is given), \<open>get\<close> and \<open>remove\<close>
  look the class up and raise \<open>KeyError\<close> when it is absent, \<open>remove\<close> returns the object
  and drops the entry, \<open>clear\<close> removes every installed class in turn, and \<open>len\<close> counts
  the entries.
\<close>

datatype Position = TOP | LEFT | RIGHT | BOTTOM

record Installed =
  class_name :: string
  object_id :: nat

record InstalledPanel = Installed +
  panel_position :: "Position option"

type_synonym 'm registry = "(string \<times> 'm) list"

definition modes_append :: "Installed \<Rightarrow> Installed registry \<Rightarrow> Installed registry" where
  "modes_append mode r = AList.update (class_name mode) mode r"

definition panels_append ::
  "InstalledPanel \<Rightarrow> Position \<Rightarrow> InstalledPanel registry \<Rightarrow> InstalledPanel registry" where
  "panels_append panel pos r =
     AList.update (class_name panel) (panel\<lparr>panel_position := Some pos\<rparr>) r"

definition registry_get :: "string \<Rightarrow> 'm registry \<Rightarrow> error + 'm" where
  "registry_get cls r = (case map_of r cls of None \<Rightarrow> Inl KeyError | Some m \<Rightarrow> Inr m)"

definition registry_remove :: "string \<Rightarrow> 'm registry \<Rightarrow> error + ('m \<times> 'm registry)" where
  "registry_remove cls r =
     (case registry_get cls r of
        Inl e \<Rightarrow> Inl e
      | Inr m \<Rightarrow> Inr (m, AList.delete cls r))"

definition registry_clear :: "'m registry \<Rightarrow> 'm registry" where
  "registry_clear r =
     fold (\<lambda>cls r'. case registry_remove cls r' of Inl e \<Rightarrow> r' | Inr (m, r'') \<Rightarrow> r'')
          (map fst r) r"

definition registry_len :: "'m registry \<Rightarrow> nat" where
  "registry_len r = length r"

section \<open>An editor as the constructor leaves it\<close>

text \<open>
  The attribute values set by \<open>CodeEdit.__init__\<close>, \<open>_init_settings\<close> and \<open>_init_style\<close>;
  the two selection colours come from the application's palette and are parameters. The
  file manager, whose class is defined elsewhere, starts with empty strings here.
\<close>

definition new_editor :: "string \<Rightarrow> QColor \<Rightarrow> QColor \<Rightarrow> doc_ref \<Rightarrow> CodeEdit" where
  "new_editor sys_platform app_highlight app_highlighted_text d =
     \<lparr>clones = [], document = d,
      text_cursor = \<lparr>position = 0, anchor = 0\<rparr>,
      file_manager = \<lparr>path = [], encoding = [], mimetype = []\<rparr>,
      modes = [], panels = [], decorations = [],
      word_separators = [''~'', ''!'', ''@'', ''#'', ''$'', ''%'', ''^'', ''&'', ''*'', ''('', '')'',
        ''+'', ''{'', ''}'', ''|'', '':'', [CHR 0x22], [CHR 0x27], ''<'', ''>'', ''?'', '','',
        ''.'', ''/'', '';'', ''['', '']'', [CHR 0x5C], [CHR 0x0A], [CHR 0x09], ''='', ''-'',
        '' ''],
      min_indent_column = 0, save_on_focus_out = False,
      use_spaces_instead_of_tabs = True,
      whitespaces_foreground = ''light gray'',
      selection_background = app_highlight,
      show_whitespaces = False,
      foreground = ''black'',
      selection_foreground = app_highlighted_text,
      tab_length = 4, zoom_level = 0, font_size = 10,
      background = ''white'',
      font_family = DEFAULT_FONT sys_platform,
      widget_font = (DEFAULT_FONT sys_platform, Some 10),
      widget_palette = \<lparr>pal_base = ''white'', pal_text = ''black'',
        pal_highlight = app_highlight, pal_highlighted_text = app_highlighted_text\<rparr>\<rparr>"

text \<open>
  A state with one new editor at every address, each on a document of its own, every
  document empty; and the same state after editor 0 has taken editor 1 as a clone.
\<close>

definition fresh_world :: world where
  "fresh_world =
     \<lparr>editors = (\<lambda>a. new_editor ''linux'' ''#308cc6'' ''#ffffff'' a),
      docs = (\<lambda>d. \<lparr>plain_text = [], show_tabs_and_spaces = False\<rparr>),
      tooltip = None\<rparr>"



text \<open>
  The state in which editor 0 shows the one line \<open>"    x"\<close> (four blanks, then \<open>x\<close>) and
  has its cursor at column 2, inside the indentation.
\<close>

definition indented_world :: world where
  "indented_world =
     fresh_world\<lparr>editors := (editors fresh_world)
                     (0 := (editors fresh_world 0)\<lparr>text_cursor := \<lparr>position = 2, anchor = 2\<rparr>\<rparr>),
                   docs := (docs fresh_world)
                     (0 := \<lparr>plain_text = ''    x'', show_tabs_and_spaces = False\<rparr>)\<rparr>"

section \<open>Properties of the state updates\<close>

lemma editors_upd_editor:
  "editors (upd_editor a f s) x = (if x = a then f (editors s a) else editors s x)"
  by (simp add: upd_editor_def)

lemma docs_upd_editor: "docs (upd_editor a f s) = docs s"
  by (simp add: upd_editor_def)

lemma reset_stylesheet_cases:
  "reset_stylesheet a s =
     (if in_C_int (font_size (editors s a) + zoom_level (editors s a))
      then Returns (upd_editor a (\<lambda>e. e\<lparr>widget_font :=
                (font_family (editors s a),
                 if font_size (editors s a) + zoom_level (editors s a) \<le> 0 then None
                 else Some (font_size (editors s a) + zoom_level (editors s a))),
              widget_palette := \<lparr>pal_base = background e, pal_text = foreground e,
                pal_highlight = selection_background e,
                pal_highlighted_text = selection_foreground e\<rparr>\<rparr>) s)
      else Raises OverflowError s)"
  by (simp add: reset_stylesheet_def QFont_def)

lemma raised_reset_stylesheet:
  "raised (reset_stylesheet a s) =
     (if in_C_int (font_size (editors s a) + zoom_level (editors s a)) then None
      else Some OverflowError)"
  by (simp add: reset_stylesheet_cases)

lemma field_reset_stylesheet:
  assumes "\<And>e w p. f (e\<lparr>widget_font := w, widget_palette := p\<rparr>) = f e"
  shows "f (editors (state_of (reset_stylesheet a s)) x) = f (editors s x)"
  using assms by (simp add: reset_stylesheet_cases editors_upd_editor)

lemma docs_reset_stylesheet: "docs (state_of (reset_stylesheet a s)) = docs s"
  by (simp add: reset_stylesheet_cases docs_upd_editor)

lemma widget_font_reset_stylesheet:
  "widget_font (editors (state_of (reset_stylesheet a s)) a) =
     (if in_C_int (font_size (editors s a) + zoom_level (editors s a))
      then (font_family (editors s a),
            if font_size (editors s a) + zoom_level (editors s a) \<le> 0 then None
            else Some (font_size (editors s a) + zoom_level (editors s a)))
      else widget_font (editors s a))"
  by (simp add: reset_stylesheet_cases editors_upd_editor)

lemma editors_set_whitespaces_flags: "editors (set_whitespaces_flags v a s) = editors s"
  by (simp add: set_whitespaces_flags_def Let_def)

lemma editors_set_zoom_level:
  "editors (set_zoom_level v a s) x =
     (if x = a then (editors s a)\<lparr>zoom_level := v\<rparr> else editors s x)"
  by (simp add: set_zoom_level_def upd_editor_def)

lemma docs_set_zoom_level: "docs (set_zoom_level v a s) = docs s"
  by (simp add: set_zoom_level_def upd_editor_def)

lemmas editors_simps =
  editors_upd_editor editors_set_whitespaces_flags editors_set_zoom_level


section \<open>Zoom keeps the font size positive\<close>

lemma zoom_level_zoom_out:
  "zoom_level (editors (state_of (zoom_out decrement a s)) a)
     = (if font_size (editors s a) + (zoom_level (editors s a) - decrement) \<le> 0
        then - font_size (editors s a) + 1
        else zoom_level (editors s a) - decrement)"
  by (simp add: zoom_out_def Let_def field_reset_stylesheet editors_set_zoom_level)

lemma font_size_zoom_out:
  "font_size (editors (state_of (zoom_out decrement a s)) a) = font_size (editors s a)"
  by (simp add: zoom_out_def Let_def field_reset_stylesheet editors_set_zoom_level)

lemma font_family_zoom_out:
  "font_family (editors (state_of (zoom_out decrement a s)) a) = font_family (editors s a)"
  by (simp add: zoom_out_def Let_def field_reset_stylesheet editors_set_zoom_level)

lemma widget_font_zoom_out:
  "widget_font (editors (state_of (zoom_out decrement a s)) a) =
     (if in_C_int (font_size (editors (state_of (zoom_out decrement a s)) a)
                   + zoom_level (editors (state_of (zoom_out decrement a s)) a))
      then (font_family (editors s a),
            Some (font_size (editors (state_of (zoom_out decrement a s)) a)
                  + zoom_level (editors (state_of (zoom_out decrement a s)) a)))
      else widget_font (editors s a))"
  unfolding zoom_level_zoom_out font_size_zoom_out
  by (simp add: zoom_out_def Let_def widget_font_reset_stylesheet editors_set_zoom_level)

lemma raised_zoom_out:
  "raised (zoom_out decrement a s) =
     (if in_C_int (font_size (editors (state_of (zoom_out decrement a s)) a)
                   + zoom_level (editors (state_of (zoom_out decrement a s)) a))
      then None else Some OverflowError)"
  unfolding zoom_level_zoom_out font_size_zoom_out
  by (simp add: zoom_out_def Let_def raised_reset_stylesheet editors_set_zoom_level)

text \<open>
  C8. After \<open>zoom_out\<close>, whatever the state and the decrement, and whether the call returns
  or raises, \<open>font_size + zoom_level\<close> is at least 1; the font size itself is untouched, and
  the zoom level is the old one less the decrement, replaced by \<open>-font_size + 1\<close> exactly
  when the subtraction leaves the sum at or below zero. The call raises OverflowError
  exactly when that sum is outside the range of a C \<open>int\<close>, and the widget font then stays
  as it was; otherwise the call returns and the sum is the point size of the widget font.
  \<open>zoom_in\<close> has no clamp: it always adds the increment, whatever the sum becomes.
\<close>

theorem zoom_out_keeps_font_size_positive:
  "1 \<le> font_size (editors (state_of (zoom_out decrement a s)) a)
        + zoom_level (editors (state_of (zoom_out decrement a s)) a)
   \<and> font_size (editors (state_of (zoom_out decrement a s)) a) = font_size (editors s a)
   \<and> zoom_level (editors (state_of (zoom_out decrement a s)) a)
        = (if font_size (editors s a) + (zoom_level (editors s a) - decrement) \<le> 0
           then - font_size (editors s a) + 1
           else zoom_level (editors s a) - decrement)
   \<and> raised (zoom_out decrement a s)
        = (if in_C_int (font_size (editors (state_of (zoom_out decrement a s)) a)
                        + zoom_level (editors (state_of (zoom_out decrement a s)) a))
           then None else Some OverflowError)
   \<and> widget_font (editors (state_of (zoom_out decrement a s)) a)
        = (if in_C_int (font_size (editors (state_of (zoom_out decrement a s)) a)
                        + zoom_level (editors (state_of (zoom_out decrement a s)) a))
           then (font_family (editors s a),
                 Some (font_size (editors (state_of (zoom_out decrement a s)) a)
                       + zoom_level (editors (state_of (zoom_out decrement a s)) a)))
           else widget_font (editors s a))
   \<and> zoom_level (editors (state_of (zoom_in increment a s)) a)
        = zoom_level (editors s a) + increment
   \<and> font_size (editors (state_of (zoom_in increment a s)) a) = font_size (editors s a)"
proof -
  have "1 \<le> font_size (editors (state_of (zoom_out decrement a s)) a)
        + zoom_level (editors (state_of (zoom_out decrement a s)) a)"
    unfolding zoom_level_zoom_out font_size_zoom_out by simp
  moreover have "zoom_level (editors (state_of (zoom_in increment a s)) a)
        = zoom_level (editors s a) + increment"
    "font_size (editors (state_of (zoom_in increment a s)) a) = font_size (editors s a)"
    by (simp_all add: zoom_in_def field_reset_stylesheet editors_set_zoom_level)
  ultimately show ?thesis
    using font_size_zoom_out[of decrement a s] zoom_level_zoom_out[of decrement a s]
      raised_zoom_out[of decrement a s] widget_font_zoom_out[of decrement a s]
    by (intro conjI)
qed

text \<open>
  On a new editor (font size 10, zoom 0), zooming out by 25 stops at zoom -9 with a font
  of 1 point, and zooming in by -25 goes to zoom -25.
\<close>

theorem zoom_out_keeps_font_size_positive_witness:
  "zoom_level (editors (state_of (zoom_out 25 0 fresh_world)) 0) = - 9
   \<and> font_size (editors (state_of (zoom_out 25 0 fresh_world)) 0)
       + zoom_level (editors (state_of (zoom_out 25 0 fresh_world)) 0) = 1
   \<and> raised (zoom_out 25 0 fresh_world) = None
   \<and> widget_font (editors (state_of (zoom_out 25 0 fresh_world)) 0)
       = (''Source Code Pro'', Some 1)
   \<and> font_size (editors (state_of (zoom_in (- 25) 0 fresh_world)) 0)
       + zoom_level (editors (state_of (zoom_in (- 25) 0 fresh_world)) 0) = - 15"
  using zoom_out_keeps_font_size_positive [of 25 0 fresh_world "- 25"]
  by (simp add: fresh_world_def new_editor_def in_C_int_def DEFAULT_FONT_def)

text \<open>
  On a new editor, \<open>zoom_out(-2147483648)\<close> stores the zoom level 2147483648, raises
  OverflowError where it builds the font, and leaves the widget font at 10 points.
\<close>

lemma zoom_out_overflow:
  "raised (zoom_out (- 2147483648) 0 fresh_world) = Some OverflowError
   \<and> widget_font (editors (state_of (zoom_out (- 2147483648) 0 fresh_world)) 0)
       = (''Source Code Pro'', Some 10)
   \<and> font_size (editors (state_of (zoom_out (- 2147483648) 0 fresh_world)) 0)
       + zoom_level (editors (state_of (zoom_out (- 2147483648) 0 fresh_world)) 0)
       = 2147483658"
  using raised_zoom_out[of "- 2147483648" 0 fresh_world]
    widget_font_zoom_out[of "- 2147483648" 0 fresh_world]
    zoom_level_zoom_out[of "- 2147483648" 0 fresh_world]
    font_size_zoom_out[of "- 2147483648" 0 fresh_world]
  by (simp add: fresh_world_def new_editor_def in_C_int_def DEFAULT_FONT_def)

section \<open>Tooltips are cut at 1024 characters\<close>

text \<open>
  C10. \<open>show_tooltip\<close> puts on display the first 1024 characters of the text it is given
  (the whole text when it is no longer than that), and when it is given a sender decoration
  that is not among the editor's decorations it returns with the state as it was, so
  nothing is displayed.
\<close>

theorem show_tooltip_truncates:
  "show_tooltip pos tip None a s = s\<lparr>tooltip := Some (pos, take 1024 tip, a)\<rparr>
   \<and> show_tooltip pos tip (Some d) a s =
       (if d \<in> set (decorations (editors s a))
        then s\<lparr>tooltip := Some (pos, take 1024 tip, a)\<rparr> else s)
   \<and> length (take 1024 tip) \<le> 1024
   \<and> take 1024 tip = (if length tip \<le> 1024 then tip else take 1024 tip)"
  by (simp add: show_tooltip_def)

theorem show_tooltip_truncates_witness:
  "tooltip (show_tooltip (3, 4) (replicate 2000 CHR ''x'') None 0 fresh_world)
     = Some ((3, 4), replicate 1024 CHR ''x'', 0)
   \<and> show_tooltip (3, 4) ''unused variable'' (Some 7) 0 fresh_world = fresh_world"
  using show_tooltip_truncates [of "(3, 4)" "replicate 2000 CHR ''x''" 0 fresh_world 7]
    show_tooltip_truncates [of "(3, 4)" "''unused variable''" 0 fresh_world 7]
  by (simp add: fresh_world_def new_editor_def)

section \<open>The registries\<close>

lemma registry_remove_absent:
  "map_of r cls = None \<Longrightarrow> registry_remove cls r = Inl KeyError"
  by (simp add: registry_remove_def registry_get_def)

lemma map_of_delete_same: "map_of (AList.delete cls r) cls = None"
  by (simp add: delete_conv')

text \<open>
  C1. Removing a class that is not installed raises \<open>KeyError\<close>, and so does a second
  removal of a class right after a removal that succeeded. The registry of modes and the
  registry of panels are both instances of the one registry type.
\<close>

theorem remove_unregistered_raises_KeyError:
  "(cls \<notin> fst ` set r \<longrightarrow> registry_remove cls r = Inl KeyError)
   \<and> (\<forall>m r'. registry_remove cls r = Inr (m, r') \<longrightarrow> registry_remove cls r' = Inl KeyError)"
proof (intro conjI impI allI)
  assume "cls \<notin> fst ` set r"
  then have "map_of r cls = None" by (simp add: map_of_eq_None_iff)
  then show "registry_remove cls r = Inl KeyError" by (rule registry_remove_absent)
next
  fix m r' assume "registry_remove cls r = Inr (m, r')"
  then have "r' = AList.delete cls r"
    by (auto simp: registry_remove_def split: sum.splits)
  then show "registry_remove cls r' = Inl KeyError"
    using registry_remove_absent[OF map_of_delete_same] by simp
qed

theorem remove_unregistered_raises_KeyError_witness:
  "''CaseConverterMode'' \<notin> fst ` set ([] :: Installed registry)
   \<and> registry_remove ''CaseConverterMode'' ([] :: Installed registry) = Inl KeyError
   \<and> registry_remove ''LineNumberPanel''
        (panels_append \<lparr>class_name = ''LineNumberPanel'', object_id = 5,
                         panel_position = None\<rparr> LEFT [])
       = Inr (\<lparr>class_name = ''LineNumberPanel'', object_id = 5,
               panel_position = Some LEFT\<rparr>, [])
   \<and> registry_remove ''LineNumberPanel'' ([] :: InstalledPanel registry) = Inl KeyError"
  using remove_unregistered_raises_KeyError
          [of "''CaseConverterMode''" "[] :: Installed registry"]
        remove_unregistered_raises_KeyError
          [of "''LineNumberPanel''"
              "panels_append \<lparr>class_name = ''LineNumberPanel'', object_id = 5,
                               panel_position = None\<rparr> LEFT []"]
  by (simp add: registry_remove_def registry_get_def panels_append_def)

lemma clear_step:
  "(case registry_remove cls r of Inl e \<Rightarrow> r | Inr (m, r'') \<Rightarrow> r'') = AList.delete cls r"
proof (cases "map_of r cls")
  case None
  then have "cls \<notin> fst ` set r" by (simp add: map_of_eq_None_iff)
  then have "AList.delete cls r = r" by (simp add: delete_id)
  with None show ?thesis by (simp add: registry_remove_def registry_get_def)
next
  case (Some m)
  then show ?thesis by (simp add: registry_remove_def registry_get_def)
qed

lemma fold_delete: "fold AList.delete ks r = filter (\<lambda>(k, m). k \<notin> set ks) r"
proof (induction ks arbitrary: r)
  case Nil
  then show ?case by simp
next
  case (Cons k ks)
  have "filter (\<lambda>(k', m). k' \<notin> set ks) (AList.delete k r)
        = filter (\<lambda>(k', m). k' \<notin> set (k # ks)) r"
    by (induction r) (auto simp: AList.delete_eq)
  then show ?case using Cons.IH by simp
qed

lemma registry_clear_empty: "registry_clear r = []"
proof -
  have "registry_clear r = fold AList.delete (map fst r) r"
    unfolding registry_clear_def by (simp add: clear_step)
  also have "\<dots> = filter (\<lambda>(k, m). k \<notin> set (map fst r)) r" by (rule fold_delete)
  also have "\<dots> = []" by (force simp: filter_empty_conv)
  finally show ?thesis .
qed

text \<open>
  C5. From the empty registry, after \<open>append m\<close> the lookup of \<open>m\<close>'s class returns \<open>m\<close>
  itself and the length is 1; removing the class then returns \<open>m\<close> and leaves the registry
  empty; and \<open>clear\<close> leaves length 0 on any registry, in particular on one that an
  \<open>append\<close> has just made non-empty.
\<close>

theorem install_retrieve_remove:
  "registry_get (class_name m) (modes_append m []) = Inr m
   \<and> registry_len (modes_append m []) = 1
   \<and> registry_remove (class_name m) (modes_append m []) = Inr (m, [])
   \<and> registry_len (registry_clear r) = 0
   \<and> 0 < registry_len (modes_append m q)
   \<and> registry_len (registry_clear (modes_append m q)) = 0
   \<and> 0 < registry_len (panels_append p pos q')
   \<and> registry_len (registry_clear (panels_append p pos q')) = 0"
  by (simp add: registry_get_def registry_remove_def modes_append_def registry_len_def
      registry_clear_empty panels_append_def)

theorem install_retrieve_remove_witness:
  "registry_get ''CaseConverterMode''
      (modes_append \<lparr>class_name = ''CaseConverterMode'', object_id = 1\<rparr> [])
     = Inr \<lparr>class_name = ''CaseConverterMode'', object_id = 1\<rparr>
   \<and> registry_len (modes_append \<lparr>class_name = ''CaseConverterMode'', object_id = 1\<rparr> []) = 1"
  using install_retrieve_remove
          [where m = "\<lparr>class_name = ''CaseConverterMode'', object_id = 1\<rparr>"
             and r = "[] :: Installed registry" and q = "[]" and q' = "[]" and pos = LEFT
             and p = "\<lparr>class_name = ''LineNumberPanel'', object_id = 5,
                        panel_position = None\<rparr>"]
  by simp

text \<open>
  C7. A panel appended with one of the four zones is retrieved, under its class, as that
  same panel with its position equal to the zone given at installation.
\<close>

theorem panel_keeps_its_zone:
  "\<exists>p'. registry_get (class_name panel) (panels_append panel pos r) = Inr p'
        \<and> panel_position p' = Some pos
        \<and> class_name p' = class_name panel \<and> object_id p' = object_id panel
        \<and> pos \<in> {TOP, LEFT, RIGHT, BOTTOM}"
  by (cases pos) (simp_all add: registry_get_def panels_append_def update_conv')

theorem panel_keeps_its_zone_witness:
  "registry_get ''LineNumberPanel''
      (panels_append \<lparr>class_name = ''LineNumberPanel'', object_id = 5,
                       panel_position = None\<rparr> LEFT [])
     = Inr \<lparr>class_name = ''LineNumberPanel'', object_id = 5, panel_position = Some LEFT\<rparr>"
  using panel_keeps_its_zone
          [of "\<lparr>class_name = ''LineNumberPanel'', object_id = 5, panel_position = None\<rparr>"
              LEFT "[]"]
  by (simp add: registry_get_def panels_append_def)

section \<open>The setters and the clones\<close>

subsection \<open>The loop over the clones\<close>

text \<open>
  What holds of the state before the loop and is handed on by every pass holds of the
  outcome of the loop, whether it returns or a pass raises.
\<close>

lemma for_each_outcome:
  assumes "P (Returns s)"
    and "\<And>x t. x \<in> set xs \<Longrightarrow> P (Returns t) \<Longrightarrow> P (f x t)"
  shows "P (for_each f xs s)"
  using assms
proof (induction xs arbitrary: s)
  case Nil
  then show ?case by simp
next
  case (Cons x xs)
  have px: "P (f x s)" using Cons.prems by simp
  show ?case
  proof (cases "f x s")
    case (Returns t)
    have "P (for_each f xs t)"
    proof (rule Cons.IH)
      show "P (Returns t)" using px Returns by simp
    next
      fix y u assume "y \<in> set xs" "P (Returns u)"
      then show "P (f y u)" using Cons.prems(2) by simp
    qed
    then show ?thesis using Returns by simp
  next
    case (Raises e t)
    then show ?thesis using px by simp
  qed
qed

lemma for_each_preserves:
  assumes "for_each f xs s = Returns s'" and "I s"
    and "\<And>x t t'. x \<in> set xs \<Longrightarrow> f x t = Returns t' \<Longrightarrow> I t \<Longrightarrow> I t'"
  shows "I s'"
proof -
  have "\<forall>u. for_each f xs s = Returns u \<longrightarrow> I u"
  proof (rule for_each_outcome[where P = "\<lambda>out. \<forall>u. out = Returns u \<longrightarrow> I u"])
    show "\<forall>u. Returns s = Returns u \<longrightarrow> I u" using assms(2) by simp
  next
    fix x t assume "x \<in> set xs" "\<forall>u. Returns t = Returns u \<longrightarrow> I u"
    then show "\<forall>u. f x t = Returns u \<longrightarrow> I u" using assms(3) by blast
  qed
  then show ?thesis using assms(1) by simp
qed

lemma for_each_Cons_Returns:
  assumes "for_each f (x # xs) s = Returns s'"
  obtains t where "f x s = Returns t" and "for_each f xs t = Returns s'"
  using assms by (cases "f x s") simp_all


lemma for_each_append:
  "for_each f (xs @ ys) s =
     (case for_each f xs s of Returns t \<Rightarrow> for_each f ys t | Raises e t \<Rightarrow> Raises e t)"
proof (induction xs arbitrary: s)
  case Nil
  then show ?case by simp
next
  case (Cons x xs)
  then show ?case by (cases "f x s") simp_all
qed

subsection \<open>One setter, any property\<close>

text \<open>
  What the part before the loop hands on, the whole setter hands on, whatever its outcome.
\<close>

lemma assign_property_inv:
  assumes "I s"
    and "\<And>w b t. I t \<Longrightarrow> I (state_of (snd (store w b t)))"
  shows "I (state_of (assign_property n store v a s))"
  using assms(1)
proof (induction n arbitrary: v a s)
  case 0
  then show ?case by simp
next
  case (Suc n)
  obtain v' out where st: "store v a s = (v', out)" by (cases "store v a s")
  have io: "I (state_of out)" using assms(2)[OF Suc.prems, of v a] st by simp
  show ?case
  proof (cases out)
    case (Returns t)
    have "I (state_of (for_each (assign_property n store v') (clones (editors t a)) t))"
    proof (rule for_each_outcome[where P = "\<lambda>out. I (state_of out)"])
      show "I (state_of (Returns t))" using io Returns by simp
    next
      fix x u assume "I (state_of (Returns u))"
      then show "I (state_of (assign_property n store v' x u))" using Suc.IH by simp
    qed
    then show ?thesis using st Returns by simp
  next
    case (Raises e t)
    then show ?thesis using st io by simp
  qed
qed

lemma assign_property_frame:
  assumes "\<And>w b t. R (state_of (snd (store w b t))) = R t"
  shows "R (state_of (assign_property n store v a s)) = R s"
  by (rule assign_property_inv[where I = "\<lambda>t. R t = R s"]) (simp_all add: assms)

text \<open>
  Within the recursion limit a setter raises only what the part before its loop raises.
\<close>

lemma assign_property_raises:
  assumes "clone_depth_ok n (clones_of s) a"
    and cl: "\<And>w b t. clones_of (state_of (snd (store w b t))) = clones_of t"
    and rs: "\<And>w b t. raised (snd (store w b t)) \<in> {None, Some OverflowError}"
  shows "raised (assign_property n store v a s) \<in> {None, Some OverflowError}"
  using assms(1)
proof (induction n arbitrary: v a s)
  case 0
  then show ?case by simp
next
  case (Suc n)
  obtain v' out where st: "store v a s = (v', out)" by (cases "store v a s")
  have ro: "raised out \<in> {None, Some OverflowError}" using rs[of v a s] st by simp
  show ?case
  proof (cases out)
    case (Returns t)
    have ct: "clones_of t = clones_of s" using cl[of v a s] st Returns by simp
    let ?P = "\<lambda>out. clones_of (state_of out) = clones_of s
                  \<and> raised out \<in> {None, Some OverflowError}"
    have "?P (for_each (assign_property n store v') (clones (editors t a)) t)"
    proof (rule for_each_outcome[where P = ?P])
      show "?P (Returns t)" using ct by simp
    next
      fix x u assume x: "x \<in> set (clones (editors t a))" and u: "?P (Returns u)"
      have "clones (editors t a) = clones_of s a"
        using ct by (simp add: clones_of_def fun_eq_iff)
      with x Suc.prems u have "clone_depth_ok n (clones_of u) x"
        by (simp add: list_all_iff)
      then have "raised (assign_property n store v' x u) \<in> {None, Some OverflowError}"
        by (rule Suc.IH)
      moreover have "clones_of (state_of (assign_property n store v' x u)) = clones_of u"
        by (rule assign_property_frame) (rule cl)
      ultimately show "?P (assign_property n store v' x u)" using u by simp
    qed
    then show ?thesis using st Returns by simp
  next
    case (Raises e t)
    then show ?thesis using st ro by simp
  qed
qed

text \<open>
  Within the recursion limit a setter returns when the part before its loop does, on
  every editor it reaches.
\<close>

lemma assign_property_returns:
  assumes "clone_depth_ok n (clones_of s) a" and "Q s" and "V v"
    and st: "\<And>w b t. V w \<Longrightarrow> Q t \<Longrightarrow>
           \<exists>w' t'. store w b t = (w', Returns t') \<and> V w' \<and> Q t' \<and> clones_of t' = clones_of t"
  shows "\<exists>s'. assign_property n store v a s = Returns s' \<and> Q s' \<and> clones_of s' = clones_of s"
  using assms(1,2,3)
proof (induction n arbitrary: v a s)
  case 0
  then show ?case by simp
next
  case (Suc n)
  from st[OF Suc.prems(3) Suc.prems(2), of a]
  obtain v' t where sv: "store v a s = (v', Returns t)" and v': "V v'" and qt: "Q t"
    and ct: "clones_of t = clones_of s" by blast
  let ?P = "\<lambda>out. \<exists>u. out = Returns u \<and> Q u \<and> clones_of u = clones_of s"
  have "?P (for_each (assign_property n store v') (clones (editors t a)) t)"
  proof (rule for_each_outcome[where P = ?P])
    show "?P (Returns t)" using qt ct by simp
  next
    fix x u assume x: "x \<in> set (clones (editors t a))" and u: "?P (Returns u)"
    have "clones (editors t a) = clones_of s a"
      using ct by (simp add: clones_of_def fun_eq_iff)
    with x Suc.prems(1) u have d: "clone_depth_ok n (clones_of u) x"
      by (simp add: list_all_iff)
    from u have qu: "Q u" and cu: "clones_of u = clones_of s" by simp_all
    from Suc.IH[OF d qu v'] obtain u' where "assign_property n store v' x u = Returns u'"
      and "Q u'" and "clones_of u' = clones_of u" by blast
    then show "?P (assign_property n store v' x u)" using cu by simp
  qed
  then show ?case using sv by simp
qed




text \<open>
  A setter that returns had its clone lists within the recursion limit.
\<close>

lemma for_each_all_return:
  assumes "for_each f xs s = Returns s'" and "I s"
    and "\<And>x t t'. x \<in> set xs \<Longrightarrow> f x t = Returns t' \<Longrightarrow> I t \<Longrightarrow> I t' \<and> Q x"
  shows "\<forall>x \<in> set xs. Q x"
  using assms
proof (induction xs arbitrary: s)
  case Nil
  then show ?case by simp
next
  case (Cons x xs)
  from Cons.prems(1) obtain t where t: "f x s = Returns t"
    and rest: "for_each f xs t = Returns s'"
    by (rule for_each_Cons_Returns)
  have xt: "I t \<and> Q x" using Cons.prems(3)[OF _ t Cons.prems(2)] by simp
  have step: "\<And>y u u'. y \<in> set xs \<Longrightarrow> f y u = Returns u' \<Longrightarrow> I u \<Longrightarrow> I u' \<and> Q y"
    using Cons.prems(3) by (meson list.set_intros(2))
  have "\<forall>y \<in> set xs. Q y"
  proof (rule Cons.IH[OF rest])
    show "I t" using xt by simp
  next
    fix y u u' assume "y \<in> set xs" "f y u = Returns u'" "I u"
    then show "I u' \<and> Q y" by (rule step)
  qed
  with xt show ?case by simp
qed

lemma assign_property_depth:
  assumes "assign_property n store v a s = Returns s'"
    and cl: "\<And>w b t. clones_of (state_of (snd (store w b t))) = clones_of t"
  shows "clone_depth_ok n (clones_of s) a"
  using assms(1)
proof (induction n arbitrary: v a s s')
  case 0
  then show ?case by simp
next
  case (Suc n)
  obtain v' out where st: "store v a s = (v', out)" by (cases "store v a s")
  from Suc.prems st obtain t where out: "out = Returns t" by (cases out) simp_all
  have ct: "clones_of t = clones_of s" using cl[of v a s] st out by simp
  from Suc.prems st out
  have fe: "for_each (assign_property n store v') (clones (editors t a)) t = Returns s'"
    by simp
  have "\<forall>x \<in> set (clones (editors t a)). clone_depth_ok n (clones_of s) x"
  proof (rule for_each_all_return[OF fe, where I = "\<lambda>u. clones_of u = clones_of s"])
    show "clones_of t = clones_of s" by (rule ct)
  next
    fix x u u' assume run: "assign_property n store v' x u = Returns u'"
      and u: "clones_of u = clones_of s"
    have "clones_of (state_of (assign_property n store v' x u)) = clones_of u"
      by (rule assign_property_frame) (rule cl)
    moreover have "clone_depth_ok n (clones_of u) x" by (rule Suc.IH[OF run])
    ultimately show "clones_of u' = clones_of s \<and> clone_depth_ok n (clones_of s) x"
      using u run by simp
  qed
  moreover have "clones (editors t a) = clones_of s a"
    using ct by (simp add: clones_of_def fun_eq_iff)
  ultimately show ?case by (simp add: list_all_iff)
qed

subsection \<open>Each property\<close>

lemma clones_reset_stylesheet:
  "clones (editors (state_of (reset_stylesheet a s)) x) = clones (editors s x)"
  by (rule field_reset_stylesheet) simp

lemma document_reset_stylesheet:
  "document (editors (state_of (reset_stylesheet a s)) x) = document (editors s x)"
  by (rule field_reset_stylesheet) simp

lemma zoom_level_reset_stylesheet:
  "zoom_level (editors (state_of (reset_stylesheet a s)) x) = zoom_level (editors s x)"
  by (rule field_reset_stylesheet) simp

lemma font_size_reset_stylesheet:
  "font_size (editors (state_of (reset_stylesheet a s)) x) = font_size (editors s x)"
  by (rule field_reset_stylesheet) simp

lemma font_family_reset_stylesheet:
  "font_family (editors (state_of (reset_stylesheet a s)) x) = font_family (editors s x)"
  by (rule field_reset_stylesheet) simp

lemma background_reset_stylesheet:
  "background (editors (state_of (reset_stylesheet a s)) x) = background (editors s x)"
  by (rule field_reset_stylesheet) simp

lemma foreground_reset_stylesheet:
  "foreground (editors (state_of (reset_stylesheet a s)) x) = foreground (editors s x)"
  by (rule field_reset_stylesheet) simp

lemma selection_background_reset_stylesheet:
  "selection_background (editors (state_of (reset_stylesheet a s)) x) = selection_background (editors s x)"
  by (rule field_reset_stylesheet) simp

lemma selection_foreground_reset_stylesheet:
  "selection_foreground (editors (state_of (reset_stylesheet a s)) x) = selection_foreground (editors s x)"
  by (rule field_reset_stylesheet) simp

lemma whitespaces_foreground_reset_stylesheet:
  "whitespaces_foreground (editors (state_of (reset_stylesheet a s)) x) = whitespaces_foreground (editors s x)"
  by (rule field_reset_stylesheet) simp

lemma tab_length_reset_stylesheet:
  "tab_length (editors (state_of (reset_stylesheet a s)) x) = tab_length (editors s x)"
  by (rule field_reset_stylesheet) simp

lemma use_spaces_instead_of_tabs_reset_stylesheet:
  "use_spaces_instead_of_tabs (editors (state_of (reset_stylesheet a s)) x) = use_spaces_instead_of_tabs (editors s x)"
  by (rule field_reset_stylesheet) simp

lemma min_indent_column_reset_stylesheet:
  "min_indent_column (editors (state_of (reset_stylesheet a s)) x) = min_indent_column (editors s x)"
  by (rule field_reset_stylesheet) simp

lemma save_on_focus_out_reset_stylesheet:
  "save_on_focus_out (editors (state_of (reset_stylesheet a s)) x) = save_on_focus_out (editors s x)"
  by (rule field_reset_stylesheet) simp

lemma show_whitespaces_reset_stylesheet:
  "show_whitespaces (editors (state_of (reset_stylesheet a s)) x) = show_whitespaces (editors s x)"
  by (rule field_reset_stylesheet) simp

lemma word_separators_reset_stylesheet:
  "word_separators (editors (state_of (reset_stylesheet a s)) x) = word_separators (editors s x)"
  by (rule field_reset_stylesheet) simp

lemmas reset_simps =
  clones_reset_stylesheet
  document_reset_stylesheet
  zoom_level_reset_stylesheet
  font_size_reset_stylesheet
  font_family_reset_stylesheet
  background_reset_stylesheet
  foreground_reset_stylesheet
  selection_background_reset_stylesheet
  selection_foreground_reset_stylesheet
  whitespaces_foreground_reset_stylesheet
  tab_length_reset_stylesheet
  use_spaces_instead_of_tabs_reset_stylesheet
  min_indent_column_reset_stylesheet
  save_on_focus_out_reset_stylesheet
  show_whitespaces_reset_stylesheet
  word_separators_reset_stylesheet

lemma clones_of_reset_stylesheet: "clones_of (state_of (reset_stylesheet a s)) = clones_of s"
  by (simp add: clones_of_def fun_eq_iff clones_reset_stylesheet)














lemma set_tab_length_returns:
  assumes "clone_depth_ok n (clones_of s) e"
  shows "\<exists>s'. set_tab_length n v e s = Returns s'"
proof -
  have "\<exists>s'. assign_property n store_tab_length v e s = Returns s'
      \<and> True \<and> clones_of s' = clones_of s"
    by (rule assign_property_returns[where V = "\<lambda>w. True" and Q = "\<lambda>t. True",
          OF assms(1)])
       (simp_all add: store_tab_length_def editors_simps clones_of_def fun_eq_iff)
  then show ?thesis by (auto simp: set_tab_length_def)
qed













subsection \<open>When a setter returns\<close>

text \<open>
  The setter of \<open>tab_length\<close>, which calls nothing that can raise, returns exactly when
  the clone lists below the editor stay within the recursion limit.
\<close>

lemma set_tab_length_returns_iff:
  "(\<exists>s'. set_tab_length n v e s = Returns s') \<longleftrightarrow> clone_depth_ok n (clones_of s) e"
proof
  assume "\<exists>s'. set_tab_length n v e s = Returns s'"
  then obtain s' where "assign_property n store_tab_length v e s = Returns s'"
    by (auto simp: set_tab_length_def)
  then show "clone_depth_ok n (clones_of s) e"
    by (rule assign_property_depth)
       (simp add: store_tab_length_def editors_simps clones_of_def fun_eq_iff)
next
  assume "clone_depth_ok n (clones_of s) e"
  then show "\<exists>s'. set_tab_length n v e s = Returns s'" by (rule set_tab_length_returns)
qed







section \<open>Linking\<close>

subsection \<open>What the statements of link leave alone\<close>

lemma doc_texts_set_whitespaces_flags:
  "doc_texts (set_whitespaces_flags v a s) = doc_texts s"
  by (simp add: set_whitespaces_flags_def Let_def doc_texts_def fun_eq_iff)

lemma doc_texts_upd_editor: "doc_texts (upd_editor a f s) = doc_texts s"
  by (simp add: doc_texts_def fun_eq_iff docs_upd_editor)

lemma doc_texts_reset_stylesheet:
  "doc_texts (state_of (reset_stylesheet a s)) = doc_texts s"
  by (simp add: doc_texts_def fun_eq_iff docs_reset_stylesheet)

lemmas doc_texts_simps =
  doc_texts_set_whitespaces_flags doc_texts_upd_editor doc_texts_reset_stylesheet

lemma clones_of_link_frame: "clones_of s = (\<lambda>x. fst (link_frame s x))"
  by (simp add: clones_of_def link_frame_def fun_eq_iff)

lemma depth_frame:
  "link_frame t' = link_frame t \<Longrightarrow> clone_depth_ok n (clones_of t) c
   \<Longrightarrow> clone_depth_ok n (clones_of t') c"
  by (simp add: clones_of_link_frame)

lemma set_use_spaces_instead_of_tabs_frame:
  "link_frame (state_of (set_use_spaces_instead_of_tabs n v c t)) = link_frame t
   \<and> doc_texts (state_of (set_use_spaces_instead_of_tabs n v c t)) = doc_texts t"
  unfolding set_use_spaces_instead_of_tabs_def
  by (intro conjI; rule assign_property_frame)
     (simp_all add: store_use_spaces_instead_of_tabs_def link_frame_def fun_eq_iff editors_simps
        reset_simps doc_texts_simps)

lemma set_use_spaces_instead_of_tabs_raises:
  assumes "clone_depth_ok n (clones_of t) c"
  shows "raised (set_use_spaces_instead_of_tabs n v c t) \<in> {None, Some OverflowError}"
  unfolding set_use_spaces_instead_of_tabs_def
  by (rule assign_property_raises[OF assms])
     (simp_all add: store_use_spaces_instead_of_tabs_def raised_reset_stylesheet clones_of_def fun_eq_iff
        editors_simps reset_simps)

lemma set_use_spaces_instead_of_tabs_bounded:
  assumes "clone_depth_ok n (clones_of t) c"
    and "\<forall>x y. in_C_int (font_size (editors t x) + zoom_level (editors t y))"
  shows "\<exists>t'. set_use_spaces_instead_of_tabs n v c t = Returns t'
      \<and> (\<forall>x y. in_C_int (font_size (editors t' x) + zoom_level (editors t' y)))
      \<and> clones_of t' = clones_of t"
  unfolding set_use_spaces_instead_of_tabs_def
  by (rule assign_property_returns[where V = "\<lambda>w. True"
        and Q = "\<lambda>t. \<forall>x y. in_C_int (font_size (editors t x) + zoom_level (editors t y))",
        OF assms])
     (simp_all add: store_use_spaces_instead_of_tabs_def reset_stylesheet_cases editors_simps
        clones_of_def fun_eq_iff)

lemma set_tab_length_frame:
  "link_frame (state_of (set_tab_length n v c t)) = link_frame t
   \<and> doc_texts (state_of (set_tab_length n v c t)) = doc_texts t"
  unfolding set_tab_length_def
  by (intro conjI; rule assign_property_frame)
     (simp_all add: store_tab_length_def link_frame_def fun_eq_iff editors_simps
        reset_simps doc_texts_simps)

lemma set_tab_length_raises:
  assumes "clone_depth_ok n (clones_of t) c"
  shows "raised (set_tab_length n v c t) \<in> {None, Some OverflowError}"
  unfolding set_tab_length_def
  by (rule assign_property_raises[OF assms])
     (simp_all add: store_tab_length_def raised_reset_stylesheet clones_of_def fun_eq_iff
        editors_simps reset_simps)

lemma set_tab_length_bounded:
  assumes "clone_depth_ok n (clones_of t) c"
    and "\<forall>x y. in_C_int (font_size (editors t x) + zoom_level (editors t y))"
  shows "\<exists>t'. set_tab_length n v c t = Returns t'
      \<and> (\<forall>x y. in_C_int (font_size (editors t' x) + zoom_level (editors t' y)))
      \<and> clones_of t' = clones_of t"
  unfolding set_tab_length_def
  by (rule assign_property_returns[where V = "\<lambda>w. True"
        and Q = "\<lambda>t. \<forall>x y. in_C_int (font_size (editors t x) + zoom_level (editors t y))",
        OF assms])
     (simp_all add: store_tab_length_def reset_stylesheet_cases editors_simps
        clones_of_def fun_eq_iff)

lemma set_min_indent_column_frame:
  "link_frame (state_of (set_min_indent_column n v c t)) = link_frame t
   \<and> doc_texts (state_of (set_min_indent_column n v c t)) = doc_texts t"
  unfolding set_min_indent_column_def
  by (intro conjI; rule assign_property_frame)
     (simp_all add: store_min_indent_column_def link_frame_def fun_eq_iff editors_simps
        reset_simps doc_texts_simps)

lemma set_min_indent_column_raises:
  assumes "clone_depth_ok n (clones_of t) c"
  shows "raised (set_min_indent_column n v c t) \<in> {None, Some OverflowError}"
  unfolding set_min_indent_column_def
  by (rule assign_property_raises[OF assms])
     (simp_all add: store_min_indent_column_def raised_reset_stylesheet clones_of_def fun_eq_iff
        editors_simps reset_simps)

lemma set_min_indent_column_bounded:
  assumes "clone_depth_ok n (clones_of t) c"
    and "\<forall>x y. in_C_int (font_size (editors t x) + zoom_level (editors t y))"
  shows "\<exists>t'. set_min_indent_column n v c t = Returns t'
      \<and> (\<forall>x y. in_C_int (font_size (editors t' x) + zoom_level (editors t' y)))
      \<and> clones_of t' = clones_of t"
  unfolding set_min_indent_column_def
  by (rule assign_property_returns[where V = "\<lambda>w. True"
        and Q = "\<lambda>t. \<forall>x y. in_C_int (font_size (editors t x) + zoom_level (editors t y))",
        OF assms])
     (simp_all add: store_min_indent_column_def reset_stylesheet_cases editors_simps
        clones_of_def fun_eq_iff)

lemma set_save_on_focus_out_frame:
  "link_frame (state_of (set_save_on_focus_out n v c t)) = link_frame t
   \<and> doc_texts (state_of (set_save_on_focus_out n v c t)) = doc_texts t"
  unfolding set_save_on_focus_out_def
  by (intro conjI; rule assign_property_frame)
     (simp_all add: store_save_on_focus_out_def link_frame_def fun_eq_iff editors_simps
        reset_simps doc_texts_simps)

lemma set_save_on_focus_out_raises:
  assumes "clone_depth_ok n (clones_of t) c"
  shows "raised (set_save_on_focus_out n v c t) \<in> {None, Some OverflowError}"
  unfolding set_save_on_focus_out_def
  by (rule assign_property_raises[OF assms])
     (simp_all add: store_save_on_focus_out_def raised_reset_stylesheet clones_of_def fun_eq_iff
        editors_simps reset_simps)

lemma set_save_on_focus_out_bounded:
  assumes "clone_depth_ok n (clones_of t) c"
    and "\<forall>x y. in_C_int (font_size (editors t x) + zoom_level (editors t y))"
  shows "\<exists>t'. set_save_on_focus_out n v c t = Returns t'
      \<and> (\<forall>x y. in_C_int (font_size (editors t' x) + zoom_level (editors t' y)))
      \<and> clones_of t' = clones_of t"
  unfolding set_save_on_focus_out_def
  by (rule assign_property_returns[where V = "\<lambda>w. True"
        and Q = "\<lambda>t. \<forall>x y. in_C_int (font_size (editors t x) + zoom_level (editors t y))",
        OF assms])
     (simp_all add: store_save_on_focus_out_def reset_stylesheet_cases editors_simps
        clones_of_def fun_eq_iff)

lemma set_show_whitespaces_frame:
  "link_frame (state_of (set_show_whitespaces n v c t)) = link_frame t
   \<and> doc_texts (state_of (set_show_whitespaces n v c t)) = doc_texts t"
  unfolding set_show_whitespaces_def
  by (intro conjI; rule assign_property_frame)
     (simp_all add: store_show_whitespaces_def link_frame_def fun_eq_iff editors_simps
        reset_simps doc_texts_simps)

lemma set_show_whitespaces_raises:
  assumes "clone_depth_ok n (clones_of t) c"
  shows "raised (set_show_whitespaces n v c t) \<in> {None, Some OverflowError}"
  unfolding set_show_whitespaces_def
  by (rule assign_property_raises[OF assms])
     (simp_all add: store_show_whitespaces_def raised_reset_stylesheet clones_of_def fun_eq_iff
        editors_simps reset_simps)

lemma set_show_whitespaces_bounded:
  assumes "clone_depth_ok n (clones_of t) c"
    and "\<forall>x y. in_C_int (font_size (editors t x) + zoom_level (editors t y))"
  shows "\<exists>t'. set_show_whitespaces n v c t = Returns t'
      \<and> (\<forall>x y. in_C_int (font_size (editors t' x) + zoom_level (editors t' y)))
      \<and> clones_of t' = clones_of t"
  unfolding set_show_whitespaces_def
  by (rule assign_property_returns[where V = "\<lambda>w. True"
        and Q = "\<lambda>t. \<forall>x y. in_C_int (font_size (editors t x) + zoom_level (editors t y))",
        OF assms])
     (simp_all add: store_show_whitespaces_def reset_stylesheet_cases editors_simps
        clones_of_def fun_eq_iff)

lemma set_font_name_frame:
  "link_frame (state_of (set_font_name n p v c t)) = link_frame t
   \<and> doc_texts (state_of (set_font_name n p v c t)) = doc_texts t"
  unfolding set_font_name_def
  by (intro conjI; rule assign_property_frame)
     (simp_all add: store_font_name_def Let_def link_frame_def fun_eq_iff editors_simps
        reset_simps doc_texts_simps)

lemma set_font_name_raises:
  assumes "clone_depth_ok n (clones_of t) c"
  shows "raised (set_font_name n p v c t) \<in> {None, Some OverflowError}"
  unfolding set_font_name_def
  by (rule assign_property_raises[OF assms])
     (simp_all add: store_font_name_def Let_def raised_reset_stylesheet clones_of_def fun_eq_iff
        editors_simps reset_simps)

lemma set_font_name_bounded:
  assumes "clone_depth_ok n (clones_of t) c"
    and "\<forall>x y. in_C_int (font_size (editors t x) + zoom_level (editors t y))"
  shows "\<exists>t'. set_font_name n p v c t = Returns t'
      \<and> (\<forall>x y. in_C_int (font_size (editors t' x) + zoom_level (editors t' y)))
      \<and> clones_of t' = clones_of t"
  unfolding set_font_name_def
  by (rule assign_property_returns[where V = "\<lambda>w. True"
        and Q = "\<lambda>t. \<forall>x y. in_C_int (font_size (editors t x) + zoom_level (editors t y))",
        OF assms])
     (simp_all add: store_font_name_def Let_def reset_stylesheet_cases editors_simps
        clones_of_def fun_eq_iff)

lemma set_font_size_frame:
  "link_frame (state_of (set_font_size n v c t)) = link_frame t
   \<and> doc_texts (state_of (set_font_size n v c t)) = doc_texts t"
  unfolding set_font_size_def
  by (intro conjI; rule assign_property_frame)
     (simp_all add: store_font_size_def link_frame_def fun_eq_iff editors_simps
        reset_simps doc_texts_simps)

lemma set_font_size_raises:
  assumes "clone_depth_ok n (clones_of t) c"
  shows "raised (set_font_size n v c t) \<in> {None, Some OverflowError}"
  unfolding set_font_size_def
  by (rule assign_property_raises[OF assms])
     (simp_all add: store_font_size_def raised_reset_stylesheet clones_of_def fun_eq_iff
        editors_simps reset_simps)

lemma set_background_frame:
  "link_frame (state_of (set_background n v c t)) = link_frame t
   \<and> doc_texts (state_of (set_background n v c t)) = doc_texts t"
  unfolding set_background_def
  by (intro conjI; rule assign_property_frame)
     (simp_all add: store_background_def link_frame_def fun_eq_iff editors_simps
        reset_simps doc_texts_simps)

lemma set_background_raises:
  assumes "clone_depth_ok n (clones_of t) c"
  shows "raised (set_background n v c t) \<in> {None, Some OverflowError}"
  unfolding set_background_def
  by (rule assign_property_raises[OF assms])
     (simp_all add: store_background_def raised_reset_stylesheet clones_of_def fun_eq_iff
        editors_simps reset_simps)

lemma set_background_bounded:
  assumes "clone_depth_ok n (clones_of t) c"
    and "\<forall>x y. in_C_int (font_size (editors t x) + zoom_level (editors t y))"
  shows "\<exists>t'. set_background n v c t = Returns t'
      \<and> (\<forall>x y. in_C_int (font_size (editors t' x) + zoom_level (editors t' y)))
      \<and> clones_of t' = clones_of t"
  unfolding set_background_def
  by (rule assign_property_returns[where V = "\<lambda>w. True"
        and Q = "\<lambda>t. \<forall>x y. in_C_int (font_size (editors t x) + zoom_level (editors t y))",
        OF assms])
     (simp_all add: store_background_def reset_stylesheet_cases editors_simps
        clones_of_def fun_eq_iff)

lemma set_foreground_frame:
  "link_frame (state_of (set_foreground n v c t)) = link_frame t
   \<and> doc_texts (state_of (set_foreground n v c t)) = doc_texts t"
  unfolding set_foreground_def
  by (intro conjI; rule assign_property_frame)
     (simp_all add: store_foreground_def link_frame_def fun_eq_iff editors_simps
        reset_simps doc_texts_simps)

lemma set_foreground_raises:
  assumes "clone_depth_ok n (clones_of t) c"
  shows "raised (set_foreground n v c t) \<in> {None, Some OverflowError}"
  unfolding set_foreground_def
  by (rule assign_property_raises[OF assms])
     (simp_all add: store_foreground_def raised_reset_stylesheet clones_of_def fun_eq_iff
        editors_simps reset_simps)

lemma set_foreground_bounded:
  assumes "clone_depth_ok n (clones_of t) c"
    and "\<forall>x y. in_C_int (font_size (editors t x) + zoom_level (editors t y))"
  shows "\<exists>t'. set_foreground n v c t = Returns t'
      \<and> (\<forall>x y. in_C_int (font_size (editors t' x) + zoom_level (editors t' y)))
      \<and> clones_of t' = clones_of t"
  unfolding set_foreground_def
  by (rule assign_property_returns[where V = "\<lambda>w. True"
        and Q = "\<lambda>t. \<forall>x y. in_C_int (font_size (editors t x) + zoom_level (editors t y))",
        OF assms])
     (simp_all add: store_foreground_def reset_stylesheet_cases editors_simps
        clones_of_def fun_eq_iff)

lemma set_whitespaces_foreground_frame:
  "link_frame (state_of (set_whitespaces_foreground n v c t)) = link_frame t
   \<and> doc_texts (state_of (set_whitespaces_foreground n v c t)) = doc_texts t"
  unfolding set_whitespaces_foreground_def
  by (intro conjI; rule assign_property_frame)
     (simp_all add: store_whitespaces_foreground_def link_frame_def fun_eq_iff editors_simps
        reset_simps doc_texts_simps)

lemma set_whitespaces_foreground_raises:
  assumes "clone_depth_ok n (clones_of t) c"
  shows "raised (set_whitespaces_foreground n v c t) \<in> {None, Some OverflowError}"
  unfolding set_whitespaces_foreground_def
  by (rule assign_property_raises[OF assms])
     (simp_all add: store_whitespaces_foreground_def raised_reset_stylesheet clones_of_def fun_eq_iff
        editors_simps reset_simps)

lemma set_whitespaces_foreground_bounded:
  assumes "clone_depth_ok n (clones_of t) c"
    and "\<forall>x y. in_C_int (font_size (editors t x) + zoom_level (editors t y))"
  shows "\<exists>t'. set_whitespaces_foreground n v c t = Returns t'
      \<and> (\<forall>x y. in_C_int (font_size (editors t' x) + zoom_level (editors t' y)))
      \<and> clones_of t' = clones_of t"
  unfolding set_whitespaces_foreground_def
  by (rule assign_property_returns[where V = "\<lambda>w. True"
        and Q = "\<lambda>t. \<forall>x y. in_C_int (font_size (editors t x) + zoom_level (editors t y))",
        OF assms])
     (simp_all add: store_whitespaces_foreground_def reset_stylesheet_cases editors_simps
        clones_of_def fun_eq_iff)

lemma set_selection_background_frame:
  "link_frame (state_of (set_selection_background n v c t)) = link_frame t
   \<and> doc_texts (state_of (set_selection_background n v c t)) = doc_texts t"
  unfolding set_selection_background_def
  by (intro conjI; rule assign_property_frame)
     (simp_all add: store_selection_background_def link_frame_def fun_eq_iff editors_simps
        reset_simps doc_texts_simps)

lemma set_selection_background_raises:
  assumes "clone_depth_ok n (clones_of t) c"
  shows "raised (set_selection_background n v c t) \<in> {None, Some OverflowError}"
  unfolding set_selection_background_def
  by (rule assign_property_raises[OF assms])
     (simp_all add: store_selection_background_def raised_reset_stylesheet clones_of_def fun_eq_iff
        editors_simps reset_simps)

lemma set_selection_background_bounded:
  assumes "clone_depth_ok n (clones_of t) c"
    and "\<forall>x y. in_C_int (font_size (editors t x) + zoom_level (editors t y))"
  shows "\<exists>t'. set_selection_background n v c t = Returns t'
      \<and> (\<forall>x y. in_C_int (font_size (editors t' x) + zoom_level (editors t' y)))
      \<and> clones_of t' = clones_of t"
  unfolding set_selection_background_def
  by (rule assign_property_returns[where V = "\<lambda>w. True"
        and Q = "\<lambda>t. \<forall>x y. in_C_int (font_size (editors t x) + zoom_level (editors t y))",
        OF assms])
     (simp_all add: store_selection_background_def reset_stylesheet_cases editors_simps
        clones_of_def fun_eq_iff)

lemma set_selection_foreground_frame:
  "link_frame (state_of (set_selection_foreground n v c t)) = link_frame t
   \<and> doc_texts (state_of (set_selection_foreground n v c t)) = doc_texts t"
  unfolding set_selection_foreground_def
  by (intro conjI; rule assign_property_frame)
     (simp_all add: store_selection_foreground_def link_frame_def fun_eq_iff editors_simps
        reset_simps doc_texts_simps)

lemma set_selection_foreground_raises:
  assumes "clone_depth_ok n (clones_of t) c"
  shows "raised (set_selection_foreground n v c t) \<in> {None, Some OverflowError}"
  unfolding set_selection_foreground_def
  by (rule assign_property_raises[OF assms])
     (simp_all add: store_selection_foreground_def raised_reset_stylesheet clones_of_def fun_eq_iff
        editors_simps reset_simps)

lemma set_selection_foreground_bounded:
  assumes "clone_depth_ok n (clones_of t) c"
    and "\<forall>x y. in_C_int (font_size (editors t x) + zoom_level (editors t y))"
  shows "\<exists>t'. set_selection_foreground n v c t = Returns t'
      \<and> (\<forall>x y. in_C_int (font_size (editors t' x) + zoom_level (editors t' y)))
      \<and> clones_of t' = clones_of t"
  unfolding set_selection_foreground_def
  by (rule assign_property_returns[where V = "\<lambda>w. True"
        and Q = "\<lambda>t. \<forall>x y. in_C_int (font_size (editors t x) + zoom_level (editors t y))",
        OF assms])
     (simp_all add: store_selection_foreground_def reset_stylesheet_cases editors_simps
        clones_of_def fun_eq_iff)

lemma set_font_size_bounded:
  assumes "clone_depth_ok n (clones_of t) c"
    and "\<forall>x y. in_C_int (font_size (editors t x) + zoom_level (editors t y))"
    and "\<forall>y. in_C_int (v + zoom_level (editors t y))"
  shows "\<exists>t'. set_font_size n v c t = Returns t'
      \<and> (\<forall>x y. in_C_int (font_size (editors t' x) + zoom_level (editors t' y)))
      \<and> clones_of t' = clones_of t"
proof -
  have q: "(\<forall>x y. in_C_int (font_size (editors t x) + zoom_level (editors t y)))
      \<and> (\<forall>y. in_C_int (v + zoom_level (editors t y)))"
    using assms(2,3) by simp
  have "\<exists>t'. assign_property n store_font_size v c t = Returns t'
      \<and> ((\<forall>x y. in_C_int (font_size (editors t' x) + zoom_level (editors t' y)))
         \<and> (\<forall>y. in_C_int (v + zoom_level (editors t' y))))
      \<and> clones_of t' = clones_of t"
    by (rule assign_property_returns[where V = "\<lambda>w. w = v"
        and Q = "\<lambda>t. (\<forall>x y. in_C_int (font_size (editors t x) + zoom_level (editors t y)))
                     \<and> (\<forall>y. in_C_int (v + zoom_level (editors t y)))",
        OF assms(1) q])
       (simp_all add: store_font_size_def reset_stylesheet_cases editors_simps
          clones_of_def fun_eq_iff)
  then show ?thesis by (auto simp: set_font_size_def)
qed

lemma field_fold_upd_editor:
  assumes "\<And>e. f (g e) = f e"
  shows "f (editors (fold (\<lambda>c. upd_editor c g) cs s) x) = f (editors s x)"
  using assms by (induction cs arbitrary: s) (simp_all add: editors_upd_editor)

lemma doc_texts_fold_upd_editor:
  "doc_texts (fold (\<lambda>c. upd_editor c g) cs s) = doc_texts s"
  by (induction cs arbitrary: s) (simp_all add: doc_texts_upd_editor)

lemma set_word_separators_frame:
  "link_frame (set_word_separators v a s) = link_frame s
   \<and> doc_texts (set_word_separators v a s) = doc_texts s"
  by (simp add: set_word_separators_def Let_def link_frame_def fun_eq_iff
      field_fold_upd_editor editors_upd_editor doc_texts_fold_upd_editor doc_texts_upd_editor)

lemma font_size_set_word_separators:
  "font_size (editors (set_word_separators v a s) x) = font_size (editors s x)"
  by (simp add: set_word_separators_def Let_def field_fold_upd_editor editors_upd_editor)

lemma link_document_frame:
  "link_frame (link_document mcs pcs self clone s) x =
     (clones (editors s x),
      if x = clone then document (editors s self) else document (editors s x),
      zoom_level (editors s x))"
  "doc_texts (link_document mcs pcs self clone s) = doc_texts s"
  "font_size (editors (link_document mcs pcs self clone s) x) = font_size (editors s x)"
  by (simp_all add: link_document_def Let_def link_frame_def editors_upd_editor
      doc_texts_upd_editor)

subsection \<open>The statements one by one\<close>

lemma file_settings_frame:
  "link_frame (upd_editor clone (\<lambda>c. c\<lparr>file_manager := fm c\<rparr>) s) = link_frame s
   \<and> doc_texts (upd_editor clone (\<lambda>c. c\<lparr>file_manager := fm c\<rparr>) s) = doc_texts s"
  by (simp add: link_frame_def fun_eq_iff editors_upd_editor doc_texts_upd_editor)

lemma link_properties_frame_all:
  "list_all (\<lambda>f. \<forall>t. link_frame (state_of (f t)) = link_frame t
                      \<and> doc_texts (state_of (f t)) = doc_texts t)
            (link_properties n p self clone)"
  by (simp add: link_properties_def set_use_spaces_instead_of_tabs_frame
      set_tab_length_frame set_min_indent_column_frame set_save_on_focus_out_frame
      set_show_whitespaces_frame set_font_name_frame set_font_size_frame)

lemma link_style_frame_all:
  "list_all (\<lambda>f. \<forall>t. link_frame (state_of (f t)) = link_frame t
                      \<and> doc_texts (state_of (f t)) = doc_texts t)
            (link_style n fcs self clone)"
  by (simp add: link_style_def set_background_frame set_foreground_frame
      set_whitespaces_foreground_frame set_selection_background_frame
      set_selection_foreground_frame set_word_separators_frame file_settings_frame)

lemma link_properties_frame:
  assumes "f \<in> set (link_properties n p self clone)"
  shows "link_frame (state_of (f t)) = link_frame t \<and> doc_texts (state_of (f t)) = doc_texts t"
  using assms link_properties_frame_all[of n p self clone] by (simp add: list_all_iff)

lemma link_style_frame:
  assumes "f \<in> set (link_style n fcs self clone)"
  shows "link_frame (state_of (f t)) = link_frame t \<and> doc_texts (state_of (f t)) = doc_texts t"
  using assms link_style_frame_all[of n fcs self clone] by (simp add: list_all_iff)

lemma doc_texts_set_zoom_level: "doc_texts (set_zoom_level v a s) = doc_texts s"
  by (simp add: set_zoom_level_def doc_texts_upd_editor)

lemma link_zoom_level_frame:
  "link_frame (state_of (link_zoom_level self clone t)) x =
     (clones (editors t x), document (editors t x),
      if x = clone then zoom_level (editors t self) else zoom_level (editors t x))"
  "doc_texts (state_of (link_zoom_level self clone t)) = doc_texts t"
  "font_size (editors (state_of (link_zoom_level self clone t)) x) = font_size (editors t x)"
  by (simp_all add: link_zoom_level_def link_frame_def editors_set_zoom_level
      doc_texts_set_zoom_level)

lemma link_properties_raises_all:
  "list_all (\<lambda>f. \<forall>t. clone_depth_ok n (clones_of t) clone
                      \<longrightarrow> raised (f t) \<in> {None, Some OverflowError})
            (link_properties n p self clone)"
  unfolding link_properties_def list.pred_inject
  by (intro conjI allI impI TrueI set_use_spaces_instead_of_tabs_raises
      set_tab_length_raises set_min_indent_column_raises set_save_on_focus_out_raises
      set_show_whitespaces_raises set_font_name_raises set_font_size_raises) simp_all

lemma link_style_raises_all:
  "list_all (\<lambda>f. \<forall>t. clone_depth_ok n (clones_of t) clone
                      \<longrightarrow> raised (f t) \<in> {None, Some OverflowError})
            (link_style n fcs self clone)"
  unfolding link_style_def list.pred_inject
  by (intro conjI allI impI TrueI set_background_raises set_foreground_raises
      set_whitespaces_foreground_raises set_selection_background_raises
      set_selection_foreground_raises) simp_all

lemma link_properties_raises:
  assumes "f \<in> set (link_properties n p self clone)"
    and "clone_depth_ok n (clones_of t) clone"
  shows "raised (f t) \<in> {None, Some OverflowError}"
  using assms link_properties_raises_all[of n clone p self] by (simp add: list_all_iff)

lemma link_style_raises:
  assumes "f \<in> set (link_style n fcs self clone)"
    and "clone_depth_ok n (clones_of t) clone"
  shows "raised (f t) \<in> {None, Some OverflowError}"
  using assms link_style_raises_all[of n clone fcs self] by (simp add: list_all_iff)

lemma word_separators_bounded:
  assumes "\<forall>x y. in_C_int (font_size (editors t x) + zoom_level (editors t y))"
  shows "(\<forall>x y. in_C_int (font_size (editors (set_word_separators v c t) x)
                           + zoom_level (editors (set_word_separators v c t) y)))
       \<and> clones_of (set_word_separators v c t) = clones_of t"
proof -
  have "link_frame (set_word_separators v c t) = link_frame t"
    using set_word_separators_frame by simp
  then have "\<And>y. zoom_level (editors (set_word_separators v c t) y) = zoom_level (editors t y)"
    and "clones_of (set_word_separators v c t) = clones_of t"
    by (simp_all add: link_frame_def fun_eq_iff clones_of_def)
  then show ?thesis using assms by (simp add: font_size_set_word_separators)
qed

lemma file_settings_bounded:
  assumes "\<forall>x y. in_C_int (font_size (editors t x) + zoom_level (editors t y))"
  shows "(\<forall>x y. in_C_int
            (font_size (editors (upd_editor c (\<lambda>e. e\<lparr>file_manager := fm e\<rparr>) t) x)
             + zoom_level (editors (upd_editor c (\<lambda>e. e\<lparr>file_manager := fm e\<rparr>) t) y)))
       \<and> clones_of (upd_editor c (\<lambda>e. e\<lparr>file_manager := fm e\<rparr>) t) = clones_of t"
  using assms by (simp add: editors_upd_editor clones_of_def fun_eq_iff)

lemma link_properties_bounded_all:
  "list_all (\<lambda>f. \<forall>t. clone_depth_ok n (clones_of t) clone \<longrightarrow>
                  (\<forall>x y. in_C_int (font_size (editors t x) + zoom_level (editors t y))) \<longrightarrow>
                  (\<exists>t'. f t = Returns t'
                     \<and> (\<forall>x y. in_C_int (font_size (editors t' x) + zoom_level (editors t' y)))
                     \<and> clones_of t' = clones_of t))
            (link_properties n p self clone)"
  unfolding link_properties_def list.pred_inject
  by (intro conjI allI impI TrueI set_use_spaces_instead_of_tabs_bounded
      set_tab_length_bounded set_min_indent_column_bounded set_save_on_focus_out_bounded
      set_show_whitespaces_bounded set_font_name_bounded set_font_size_bounded) simp_all

lemma link_style_bounded_all:
  "list_all (\<lambda>f. \<forall>t. clone_depth_ok n (clones_of t) clone \<longrightarrow>
                  (\<forall>x y. in_C_int (font_size (editors t x) + zoom_level (editors t y))) \<longrightarrow>
                  (\<exists>t'. f t = Returns t'
                     \<and> (\<forall>x y. in_C_int (font_size (editors t' x) + zoom_level (editors t' y)))
                     \<and> clones_of t' = clones_of t))
            (link_style n fcs self clone)"
  unfolding link_style_def list.pred_inject
  by (intro conjI allI impI TrueI set_background_bounded set_foreground_bounded
      set_whitespaces_foreground_bounded set_selection_background_bounded
      set_selection_foreground_bounded)
     (simp_all add: word_separators_bounded file_settings_bounded)

lemma link_zoom_level_bounded:
  assumes "\<forall>x y. in_C_int (font_size (editors t x) + zoom_level (editors t y))"
  shows "\<exists>t'. link_zoom_level self clone t = Returns t'
      \<and> (\<forall>x y. in_C_int (font_size (editors t' x) + zoom_level (editors t' y)))
      \<and> clones_of t' = clones_of t"
  using assms
  by (simp add: link_zoom_level_def editors_set_zoom_level clones_of_def fun_eq_iff)

subsection \<open>The outcome of link\<close>

text \<open>
  Whatever the outcome, the state \<open>link\<close> leaves has the clone lists and the texts as they
  were, and the clone on the original's document.
\<close>

lemma link_state:
  "(\<forall>x. clones (editors (state_of (link n p mcs pcs fcs self clone s0)) x)
          = clones (editors s0 x)
      \<and> document (editors (state_of (link n p mcs pcs fcs self clone s0)) x)
          = (if x = clone then document (editors s0 self) else document (editors s0 x)))
   \<and> doc_texts (state_of (link n p mcs pcs fcs self clone s0)) = doc_texts s0"
proof -
  let ?D = "link_document mcs pcs self clone s0"
  let ?J = "\<lambda>t. (\<forall>x. clones (editors t x) = clones (editors ?D x)
                    \<and> document (editors t x) = document (editors ?D x))
               \<and> doc_texts t = doc_texts ?D"
  have "?J (state_of (link n p mcs pcs fcs self clone s0))"
    unfolding link_def
  proof (rule for_each_outcome[where P = "\<lambda>out. ?J (state_of out)"])
    show "?J (state_of (Returns ?D))" by simp
  next
    fix f t
    assume f: "f \<in> set (link_properties n p self clone @ [link_zoom_level self clone]
                         @ link_style n fcs self clone)"
      and t: "?J (state_of (Returns t))"
    have "(\<forall>x. clones (editors (state_of (f t)) x) = clones (editors t x)
              \<and> document (editors (state_of (f t)) x) = document (editors t x))
          \<and> doc_texts (state_of (f t)) = doc_texts t"
    proof -
      from f consider "f \<in> set (link_properties n p self clone)"
        | "f = link_zoom_level self clone" | "f \<in> set (link_style n fcs self clone)"
        by auto
      then show ?thesis
      proof cases
        case 1
        from link_properties_frame[OF 1, of t] show ?thesis
          by (simp add: link_frame_def fun_eq_iff)
      next
        case 2
        then show ?thesis
          using link_zoom_level_frame(1)[of self clone t] link_zoom_level_frame(2)[of self clone t]
          by (simp add: link_frame_def)
      next
        case 3
        from link_style_frame[OF 3, of t] show ?thesis
          by (simp add: link_frame_def fun_eq_iff)
      qed
    qed
    then show "?J (state_of (f t))" using t by simp
  qed
  moreover have "\<And>x. clones (editors ?D x) = clones (editors s0 x)
      \<and> document (editors ?D x)
          = (if x = clone then document (editors s0 self) else document (editors s0 x))"
    using link_document_frame(1)[of mcs pcs self clone s0] by (simp add: link_frame_def)
  moreover have "doc_texts ?D = doc_texts s0" by (rule link_document_frame(2))
  ultimately show ?thesis by simp
qed

text \<open>
  Within the recursion limit \<open>link\<close> raises nothing but the OverflowError of a font size
  out of range.
\<close>

lemma link_raises:
  assumes "clone_depth_ok n (clones_of s0) clone"
  shows "raised (link n p mcs pcs fcs self clone s0) \<in> {None, Some OverflowError}"
proof -
  let ?D = "link_document mcs pcs self clone s0"
  let ?P = "\<lambda>out. clones_of (state_of out) = clones_of s0
                \<and> raised out \<in> {None, Some OverflowError}"
  have cD: "clones_of ?D = clones_of s0"
    using link_document_frame(1)[of mcs pcs self clone s0]
    by (simp add: clones_of_def link_frame_def fun_eq_iff)
  have "?P (link n p mcs pcs fcs self clone s0)"
    unfolding link_def
  proof (rule for_each_outcome[where P = ?P])
    show "?P (Returns ?D)" using cD by simp
  next
    fix f t
    assume f: "f \<in> set (link_properties n p self clone @ [link_zoom_level self clone]
                         @ link_style n fcs self clone)"
      and t: "?P (Returns t)"
    from t have ct: "clones_of t = clones_of s0" by simp
    then have d: "clone_depth_ok n (clones_of t) clone" using assms by simp
    from f consider "f \<in> set (link_properties n p self clone)"
      | "f = link_zoom_level self clone" | "f \<in> set (link_style n fcs self clone)"
      by auto
    then show "?P (f t)"
    proof cases
      case 1
      from link_properties_frame[OF 1, of t]
      have "clones_of (state_of (f t)) = clones_of t" by (simp add: clones_of_link_frame)
      then show ?thesis using link_properties_raises[OF 1 d] ct by simp
    next
      case 2
      then show ?thesis
        using ct link_zoom_level_frame(1)[of self clone t]
        by (simp add: link_zoom_level_def clones_of_def link_frame_def fun_eq_iff)
    next
      case 3
      from link_style_frame[OF 3, of t]
      have "clones_of (state_of (f t)) = clones_of t" by (simp add: clones_of_link_frame)
      then show ?thesis using link_style_raises[OF 3 d] ct by simp
    qed
  qed
  then show ?thesis by simp
qed

text \<open>
  It returns when, besides, every font size in the state taken with every zoom level in
  the state is a size the toolkit accepts.
\<close>

lemma link_returns:
  assumes "clone_depth_ok n (clones_of s0) clone"
    and "\<forall>x y. in_C_int (font_size (editors s0 x) + zoom_level (editors s0 y))"
  shows "\<exists>s'. link n p mcs pcs fcs self clone s0 = Returns s'"
proof -
  let ?D = "link_document mcs pcs self clone s0"
  let ?Q = "\<lambda>t. \<forall>x y. in_C_int (font_size (editors t x) + zoom_level (editors t y))"
  let ?P = "\<lambda>out. \<exists>t. out = Returns t \<and> ?Q t \<and> clones_of t = clones_of s0"
  have cD: "clones_of ?D = clones_of s0"
    using link_document_frame(1)[of mcs pcs self clone s0]
    by (simp add: clones_of_def link_frame_def fun_eq_iff)
  have zD: "\<And>y. zoom_level (editors ?D y) = zoom_level (editors s0 y)"
    using link_document_frame(1)[of mcs pcs self clone s0] by (simp add: link_frame_def)
  have qD: "?Q ?D" using assms(2) by (simp add: zD link_document_frame(3))
  have "?P (link n p mcs pcs fcs self clone s0)"
    unfolding link_def
  proof (rule for_each_outcome[where P = ?P])
    show "?P (Returns ?D)" using cD qD by simp
  next
    fix f t
    assume f: "f \<in> set (link_properties n p self clone @ [link_zoom_level self clone]
                         @ link_style n fcs self clone)"
      and t: "?P (Returns t)"
    from t have ct: "clones_of t = clones_of s0" and qt: "?Q t" by simp_all
    have d: "clone_depth_ok n (clones_of t) clone" using assms(1) ct by simp
    have "\<exists>t'. f t = Returns t' \<and> ?Q t' \<and> clones_of t' = clones_of t"
    proof -
      from f consider "f \<in> set (link_properties n p self clone)"
        | "f = link_zoom_level self clone" | "f \<in> set (link_style n fcs self clone)"
        by auto
      then show ?thesis
      proof cases
        case 1
        with link_properties_bounded_all[of n clone p self] d qt show ?thesis
          by (simp add: list_all_iff)
      next
        case 2
        then show ?thesis using link_zoom_level_bounded[OF qt, of self clone] by simp
      next
        case 3
        with link_style_bounded_all[of n clone fcs self] d qt show ?thesis
          by (simp add: list_all_iff)
      qed
    qed
    then show "?P (f t)" using ct by auto
  qed
  then show ?thesis by blast
qed

text \<open>
  When it returns, the clone has the original's zoom level.
\<close>

lemma link_copies_zoom_level:
  assumes "link n p mcs pcs fcs self clone s0 = Returns s'"
  shows "zoom_level (editors s' clone) = zoom_level (editors s0 self)"
proof -
  let ?D = "link_document mcs pcs self clone s0"
  let ?id = "\<lambda>statement :: world \<Rightarrow> outcome. statement"
  from assms obtain t1 where r1: "for_each ?id (link_properties n p self clone) ?D = Returns t1"
    and r2: "for_each ?id ([link_zoom_level self clone] @ link_style n fcs self clone) t1
             = Returns s'"
    unfolding link_def for_each_append[of _ "link_properties n p self clone"]
    by (cases "for_each ?id (link_properties n p self clone) ?D") simp_all
  from r2 have "for_each ?id (link_zoom_level self clone # link_style n fcs self clone) t1
             = Returns s'" by simp
  then obtain t2 where z: "link_zoom_level self clone t1 = Returns t2"
    and r3: "for_each ?id (link_style n fcs self clone) t2 = Returns s'"
    by (rule for_each_Cons_Returns)
  have f1: "link_frame t1 = link_frame ?D"
  proof (rule for_each_preserves[OF r1, of "\<lambda>u. link_frame u = link_frame ?D"])
    show "link_frame ?D = link_frame ?D" by simp
  next
    fix f u u' assume "f \<in> set (link_properties n p self clone)" "f u = Returns u'"
      "link_frame u = link_frame ?D"
    then show "link_frame u' = link_frame ?D"
      using link_properties_frame[of f n p self clone u] by simp
  qed
  have f3: "link_frame s' = link_frame t2"
  proof (rule for_each_preserves[OF r3, of "\<lambda>u. link_frame u = link_frame t2"])
    show "link_frame t2 = link_frame t2" by simp
  next
    fix f u u' assume "f \<in> set (link_style n fcs self clone)" "f u = Returns u'"
      "link_frame u = link_frame t2"
    then show "link_frame u' = link_frame t2"
      using link_style_frame[of f n fcs self clone u] by simp
  qed
  have "zoom_level (editors t1 self) = zoom_level (editors s0 self)"
    using fun_cong[OF f1, of self] link_document_frame(1)[of mcs pcs self clone s0 self]
    by (simp add: link_frame_def)
  moreover have "zoom_level (editors t2 clone) = zoom_level (editors t1 self)"
    using link_zoom_level_frame(1)[of self clone t1 clone] z by (simp add: link_frame_def)
  moreover have "zoom_level (editors s' clone) = zoom_level (editors t2 clone)"
    using fun_cong[OF f3, of clone] by (simp add: link_frame_def)
  ultimately show ?thesis by simp
qed

text \<open>
  C2. Whatever the outcome of \<open>link\<close>, in the state it leaves the clone holds the very
  document the original holds: the two references are equal. The clone then shows the
  original's text, and an edit made through either widget is what the other one shows.
  When the clone's own clone lists stay within the recursion limit, \<open>link\<close> raises nothing
  but the OverflowError of a font size out of the toolkit's range, and it returns when
  every font size in the state, taken with every zoom level in the state, is within that
  range.
\<close>

theorem link_shares_document:
  "(let out = link n sys_platform mode_clone_settings panel_clone_settings
                file_clone_settings self clone s;
        s' = state_of out
    in document (editors s' clone) = document (editors s self)
     \<and> document (editors s' self) = document (editors s' clone)
     \<and> toPlainText clone s' = toPlainText self s
     \<and> toPlainText self s' = toPlainText self s
     \<and> (\<forall>f. toPlainText clone (edit_through self f s') = f (toPlainText self s')
            \<and> toPlainText self (edit_through clone f s') = f (toPlainText clone s'))
     \<and> (clone_depth_ok n (clones_of s) clone \<longrightarrow> raised out \<in> {None, Some OverflowError})
     \<and> (clone_depth_ok n (clones_of s) clone
         \<and> (\<forall>x y. in_C_int (font_size (editors s x) + zoom_level (editors s y)))
         \<longrightarrow> (\<exists>r. out = Returns r)))"
proof -
  define out where "out = link n sys_platform mode_clone_settings panel_clone_settings
                file_clone_settings self clone s"
  define s' where "s' = state_of out"
  have st: "(\<forall>x. clones (editors s' x) = clones (editors s x)
      \<and> document (editors s' x)
          = (if x = clone then document (editors s self) else document (editors s x)))
     \<and> doc_texts s' = doc_texts s"
    unfolding s'_def out_def by (rule link_state)
  have dc: "document (editors s' clone) = document (editors s self)"
    and ds: "document (editors s' self) = document (editors s self)"
    using st by simp_all
  have same_text: "\<And>d. plain_text (docs s' d) = plain_text (docs s d)"
    using st by (simp add: doc_texts_def fun_eq_iff)
  have a: "toPlainText clone s' = toPlainText self s"
    and b: "toPlainText self s' = toPlainText self s"
    by (simp_all add: toPlainText_def dc ds same_text)
  have c: "\<forall>f. toPlainText clone (edit_through self f s') = f (toPlainText self s')
      \<and> toPlainText self (edit_through clone f s') = f (toPlainText clone s')"
    by (simp add: toPlainText_def edit_through_def Let_def dc ds)
  have d: "clone_depth_ok n (clones_of s) clone \<longrightarrow> raised out \<in> {None, Some OverflowError}"
    unfolding out_def using link_raises by blast
  have e: "clone_depth_ok n (clones_of s) clone
         \<and> (\<forall>x y. in_C_int (font_size (editors s x) + zoom_level (editors s y)))
         \<longrightarrow> (\<exists>r. out = Returns r)"
    unfolding out_def using link_returns by blast
  have "document (editors s' clone) = document (editors s self)
     \<and> document (editors s' self) = document (editors s' clone)
     \<and> toPlainText clone s' = toPlainText self s
     \<and> toPlainText self s' = toPlainText self s
     \<and> (\<forall>f. toPlainText clone (edit_through self f s') = f (toPlainText self s')
            \<and> toPlainText self (edit_through clone f s') = f (toPlainText clone s'))
     \<and> (clone_depth_ok n (clones_of s) clone \<longrightarrow> raised out \<in> {None, Some OverflowError})
     \<and> (clone_depth_ok n (clones_of s) clone
         \<and> (\<forall>x y. in_C_int (font_size (editors s x) + zoom_level (editors s y)))
         \<longrightarrow> (\<exists>r. out = Returns r))"
    using dc ds a b c d e by (intro conjI) simp_all
  then show ?thesis unfolding Let_def s'_def out_def .
qed

lemma fresh_world_depth: "clone_depth_ok (Suc 0) (clones_of fresh_world) 1"
  by (simp add: fresh_world_def new_editor_def clones_of_def)

lemma fresh_world_sizes:
  "\<forall>x y. in_C_int (font_size (editors fresh_world x) + zoom_level (editors fresh_world y))"
  by (simp add: fresh_world_def new_editor_def in_C_int_def)

theorem link_shares_document_witness:
  "clone_depth_ok (Suc 0) (clones_of fresh_world) 1
   \<and> (\<forall>x y. in_C_int (font_size (editors fresh_world x) + zoom_level (editors fresh_world y)))
   \<and> document (editors fresh_world 0) = 0 \<and> document (editors fresh_world 1) = 1
   \<and> (\<exists>r. link (Suc 0) ''linux'' (\<lambda>m orig. m) (\<lambda>p orig. p) (\<lambda>f orig. f) 0 1 fresh_world
              = Returns r
         \<and> document (editors r 1) = 0 \<and> document (editors r 0) = 0
         \<and> toPlainText 1 (edit_through 0 (\<lambda>t. t @ ''abc'') r) = ''abc''
         \<and> toPlainText 0 (edit_through 1 (\<lambda>t. ''x'' @ t) r) = ''x'')"
proof -
  have d: "document (editors fresh_world 0) = 0 \<and> document (editors fresh_world 1) = 1"
    and t: "toPlainText 0 fresh_world = []"
    by (simp_all add: fresh_world_def new_editor_def toPlainText_def)
  note inst = link_shares_document [where n = "Suc 0" and sys_platform = "''linux''"
      and mode_clone_settings = "\<lambda>m orig. m" and panel_clone_settings = "\<lambda>p orig. p"
      and file_clone_settings = "\<lambda>f orig. f" and self = 0 and clone = 1
      and s = fresh_world, unfolded Let_def]
  from inst fresh_world_depth fresh_world_sizes
  obtain r where r: "link (Suc 0) ''linux'' (\<lambda>m orig. m) (\<lambda>p orig. p) (\<lambda>f orig. f) 0 1
        fresh_world = Returns r"
    by blast
  from inst have "document (editors r 1) = document (editors fresh_world 0)"
    and "document (editors r 0) = document (editors r 1)"
    and "toPlainText 1 r = toPlainText 0 fresh_world"
    and "toPlainText 0 r = toPlainText 0 fresh_world"
    and "\<And>f. toPlainText 1 (edit_through 0 f r) = f (toPlainText 0 r)
             \<and> toPlainText 0 (edit_through 1 f r) = f (toPlainText 1 r)"
    unfolding r by simp_all
  then show ?thesis using r d t fresh_world_depth fresh_world_sizes by auto
qed

text \<open>
  C4. Let \<open>c\<close> be linked to a different editor \<open>e\<close>. A \<open>link\<close> that returns has given the
  clone the original's zoom level, once. In the state \<open>link\<close> leaves, assigning
  \<open>e.zoom_level\<close> changes the zoom level of \<open>e\<close> and nothing else, so \<open>c.zoom_level\<close> stays
  as it was, and \<open>zoom_in\<close> and \<open>zoom_out\<close> on \<open>e\<close> leave it alone as well, whether they
  return or raise. When the clone's own clone lists stay within the recursion limit,
  \<open>link\<close> raises nothing but the OverflowError of a font size out of the toolkit's range,
  and it returns when every font size in the state, taken with every zoom level in the
  state, is within that range.
\<close>

theorem zoom_is_per_view:
  assumes "c \<noteq> e"
  shows
   "(let out = link n sys_platform mode_clone_settings panel_clone_settings
                file_clone_settings e c s;
         s' = state_of out
     in (raised out = None \<longrightarrow> zoom_level (editors s' c) = zoom_level (editors s e))
      \<and> zoom_level (editors (set_zoom_level v e s') e) = v
      \<and> zoom_level (editors (set_zoom_level v e s') c) = zoom_level (editors s' c)
      \<and> (\<forall>x. editors (set_zoom_level v e s') x =
               (if x = e then (editors s' e)\<lparr>zoom_level := v\<rparr> else editors s' x))
      \<and> docs (set_zoom_level v e s') = docs s'
      \<and> zoom_level (editors (state_of (zoom_in increment e s')) c)
          = zoom_level (editors s' c)
      \<and> zoom_level (editors (state_of (zoom_out decrement e s')) c)
          = zoom_level (editors s' c)
      \<and> (clone_depth_ok n (clones_of s) c \<longrightarrow> raised out \<in> {None, Some OverflowError})
      \<and> (clone_depth_ok n (clones_of s) c
          \<and> (\<forall>x y. in_C_int (font_size (editors s x) + zoom_level (editors s y)))
          \<longrightarrow> (\<exists>r. out = Returns r)))"
proof -
  define out where "out = link n sys_platform mode_clone_settings panel_clone_settings
                file_clone_settings e c s"
  define s' where "s' = state_of out"
  have a: "raised out = None \<longrightarrow> zoom_level (editors s' c) = zoom_level (editors s e)"
  proof
    assume "raised out = None"
    then obtain r where r: "out = Returns r" by (cases out) simp_all
    then have "zoom_level (editors r c) = zoom_level (editors s e)"
      unfolding out_def by (rule link_copies_zoom_level)
    then show "zoom_level (editors s' c) = zoom_level (editors s e)"
      by (simp add: s'_def r)
  qed
  have b: "zoom_level (editors (state_of (zoom_in increment e s')) c)
          = zoom_level (editors s' c)"
    using assms by (simp add: zoom_in_def zoom_level_reset_stylesheet editors_set_zoom_level)
  have b': "zoom_level (editors (state_of (zoom_out decrement e s')) c)
          = zoom_level (editors s' c)"
    using assms
    by (simp add: zoom_out_def Let_def zoom_level_reset_stylesheet editors_set_zoom_level)
  have d: "clone_depth_ok n (clones_of s) c \<longrightarrow> raised out \<in> {None, Some OverflowError}"
    unfolding out_def using link_raises by blast
  have e: "clone_depth_ok n (clones_of s) c
         \<and> (\<forall>x y. in_C_int (font_size (editors s x) + zoom_level (editors s y)))
         \<longrightarrow> (\<exists>r. out = Returns r)"
    unfolding out_def using link_returns by blast
  have "(raised out = None \<longrightarrow> zoom_level (editors s' c) = zoom_level (editors s e))
      \<and> zoom_level (editors (set_zoom_level v e s') e) = v
      \<and> zoom_level (editors (set_zoom_level v e s') c) = zoom_level (editors s' c)
      \<and> (\<forall>x. editors (set_zoom_level v e s') x =
               (if x = e then (editors s' e)\<lparr>zoom_level := v\<rparr> else editors s' x))
      \<and> docs (set_zoom_level v e s') = docs s'
      \<and> zoom_level (editors (state_of (zoom_in increment e s')) c)
          = zoom_level (editors s' c)
      \<and> zoom_level (editors (state_of (zoom_out decrement e s')) c)
          = zoom_level (editors s' c)
      \<and> (clone_depth_ok n (clones_of s) c \<longrightarrow> raised out \<in> {None, Some OverflowError})
      \<and> (clone_depth_ok n (clones_of s) c
          \<and> (\<forall>x y. in_C_int (font_size (editors s x) + zoom_level (editors s y)))
          \<longrightarrow> (\<exists>r. out = Returns r))"
    using a b b' d e assms
    by (intro conjI) (simp_all add: editors_set_zoom_level docs_set_zoom_level)
  then show ?thesis unfolding Let_def s'_def out_def .
qed

theorem zoom_is_per_view_witness:
  "(1::nat) \<noteq> 0
   \<and> clone_depth_ok (Suc 0) (clones_of fresh_world) 1
   \<and> (\<forall>x y. in_C_int (font_size (editors fresh_world x) + zoom_level (editors fresh_world y)))
   \<and> (\<exists>r. link (Suc 0) ''linux'' (\<lambda>m orig. m) (\<lambda>p orig. p) (\<lambda>f orig. f) 0 1 fresh_world
              = Returns r
         \<and> zoom_level (editors (set_zoom_level 3 0 r) 0) = 3
         \<and> zoom_level (editors (set_zoom_level 3 0 r) 1) = 0)"
proof -
  have ne: "(1::nat) \<noteq> 0" by simp
  have z: "zoom_level (editors fresh_world 0) = 0"
    by (simp add: fresh_world_def new_editor_def)
  note inst = zoom_is_per_view [OF ne, where n = "Suc 0" and sys_platform = "''linux''"
      and mode_clone_settings = "\<lambda>m orig. m" and panel_clone_settings = "\<lambda>p orig. p"
      and file_clone_settings = "\<lambda>f orig. f" and s = fresh_world and v = 3
      and increment = 0 and decrement = 0, unfolded Let_def]
  from inst fresh_world_depth fresh_world_sizes
  obtain r where r: "link (Suc 0) ''linux'' (\<lambda>m orig. m) (\<lambda>p orig. p) (\<lambda>f orig. f) 0 1
        fresh_world = Returns r"
    by blast
  from inst have "zoom_level (editors r 1) = zoom_level (editors fresh_world 0)"
    and "zoom_level (editors (set_zoom_level 3 0 r) 0) = 3"
    and "zoom_level (editors (set_zoom_level 3 0 r) 1) = zoom_level (editors r 1)"
    unfolding r by simp_all
  then show ?thesis using r z fresh_world_depth fresh_world_sizes by auto
qed

section \<open>Blocks and lines\<close>

lemma block_start_le: "block_start txt p \<le> p"
  by (simp add: block_start_def)

lemma takeWhile_rev_le: "length (takeWhile P (rev (take p txt))) \<le> p"
proof -
  have "length (takeWhile P (rev (take p txt))) \<le> length (rev (take p txt))"
    by (rule length_takeWhile_le)
  then show ?thesis by simp
qed

lemma take_block_start:
  assumes "p \<le> length txt"
  shows "rev (take (block_start txt p) txt)
         = dropWhile (\<lambda>c. c \<noteq> newline) (rev (take p txt))"
proof -
  let ?k = "length (takeWhile (\<lambda>c. c \<noteq> newline) (rev (take p txt)))"
  have k: "?k \<le> p" by (rule takeWhile_rev_le)
  have "take (p - ?k) txt = take (p - ?k) (take p txt)" by (simp add: min_def)
  also have "\<dots> = rev (drop ?k (rev (take p txt)))"
    using assms k by (simp add: rev_drop min_def)
  finally have "rev (take (p - ?k) txt) = drop ?k (rev (take p txt))" by simp
  also have "\<dots> = dropWhile (\<lambda>c. c \<noteq> newline) (rev (take p txt))"
    by (simp add: dropWhile_eq_drop)
  finally show ?thesis by (simp add: block_start_def)
qed

lemma takeWhile_dropWhile_Nil: "takeWhile P (dropWhile P xs) = []"
  by (induction xs) auto

lemma block_start_idem:
  assumes "p \<le> length txt"
  shows "block_start txt (block_start txt p) = block_start txt p"
proof -
  have "takeWhile (\<lambda>c. c \<noteq> newline) (rev (take (block_start txt p) txt)) = []"
    unfolding take_block_start[OF assms] by (rule takeWhile_dropWhile_Nil)
  then show ?thesis
    using block_start_def[of "txt" "block_start txt p"] by simp
qed

lemma drop_rev_take: "rev (take k (rev xs)) = drop (length xs - k) xs"
  by (simp add: rev_take)

lemma drop_block_start:
  assumes "p \<le> length txt"
  shows "drop (block_start txt p) txt
         = rev (takeWhile (\<lambda>c. c \<noteq> newline) (rev (take p txt))) @ drop p txt"
proof -
  let ?k = "length (takeWhile (\<lambda>c. c \<noteq> newline) (rev (take p txt)))"
  have k: "?k \<le> p" by (rule takeWhile_rev_le)
  have "drop (p - ?k) txt = drop (p - ?k) (take p txt) @ drop p txt"
    using drop_append[of "p - ?k" "take p txt" "drop p txt"] assms by (simp add: min_def)
  also have "drop (p - ?k) (take p txt) = rev (take ?k (rev (take p txt)))"
  proof -
    have len: "length (take p txt) = p" using assms by simp
    show ?thesis using drop_rev_take[of ?k "take p txt"] by (simp only: len)
  qed
  also have "take ?k (rev (take p txt)) = takeWhile (\<lambda>c. c \<noteq> newline) (rev (take p txt))"
    by (simp add: takeWhile_eq_take[symmetric])
  finally show ?thesis by (simp add: block_start_def)
qed

lemma block_end_block_start:
  assumes "p \<le> length txt"
  shows "block_end txt (block_start txt p) = block_end txt p"
proof -
  let ?pre = "rev (takeWhile (\<lambda>c. c \<noteq> newline) (rev (take p txt)))"
  have all: "\<forall>c \<in> set ?pre. c \<noteq> newline"
    by (auto dest: set_takeWhileD)
  have "takeWhile (\<lambda>c. c \<noteq> newline) (?pre @ drop p txt)
        = ?pre @ takeWhile (\<lambda>c. c \<noteq> newline) (drop p txt)"
    by (rule takeWhile_append2) (use all in blast)
  then have "length (takeWhile (\<lambda>c. c \<noteq> newline) (drop (block_start txt p) txt))
        = length ?pre + length (takeWhile (\<lambda>c. c \<noteq> newline) (drop p txt))"
    by (simp add: drop_block_start[OF assms])
  moreover have "block_start txt p + length ?pre = p"
    using takeWhile_rev_le[of "\<lambda>c. c \<noteq> newline" p "txt"] by (simp add: block_start_def)
  ultimately show ?thesis by (simp add: block_end_def)
qed

lemma block_end_ge: "p \<le> block_end txt p"
  by (simp add: block_end_def)

section \<open>Automatic indentation on Enter\<close>

lemma selected_line:
  assumes "position tc \<le> length txt"
  shows "selectedText txt (select_LineUnderCursor txt (move_StartOfLine MoveAnchor txt tc))
         = line_text txt tc"
proof -
  let ?p = "position tc"
  have le: "block_start txt ?p \<le> block_end txt ?p"
    using block_start_le[of "txt" ?p] block_end_ge[of ?p "txt"] by simp
  show ?thesis
    using le
    by (simp add: select_LineUnderCursor_def move_StartOfLine_def move_EndOfLine_def
        setPosition_def selectedText_def Let_def line_text_def
        block_start_idem[OF assms] block_end_block_start[OF assms] min_def max_def)
qed

lemma get_indent_eq:
  assumes "position tc \<le> length txt"
  shows "get_indent mode txt tc =
     (([], if length (takeWhile py_isspace (line_text txt tc)) < length (min_indent mode)
           then min_indent mode else takeWhile py_isspace (line_text txt tc)),
      tc\<lparr>position := position tc, anchor := position tc\<rparr>)"
proof -
  have sel: "selectedText txt (select_LineUnderCursor txt (move_StartOfLine MoveAnchor txt tc))
         = line_text txt tc"
    by (rule selected_line[OF assms])
  show ?thesis
    unfolding get_indent_def Let_def sel
    by (simp add: setPosition_def select_LineUnderCursor_def move_StartOfLine_def
        move_EndOfLine_def)
qed

lemma drop_length_append: "n = length xs \<Longrightarrow> drop n (xs @ ys) = ys"
  by simp

lemma take_length_append: "n = length xs \<Longrightarrow> take n (xs @ ys) = xs"
  by simp

lemma filter_space_shorter:
  assumes "take 1 xs = '' ''"
  shows "length (filter (\<lambda>c. c \<noteq> CHR '' '') xs) < length xs"
proof -
  from assms obtain ys where ys: "xs = CHR '' '' # ys" by (cases xs) simp_all
  have "length (filter (\<lambda>c. c \<noteq> CHR '' '') ys) \<le> length ys" by (rule length_filter_le)
  then show ?thesis by (simp add: ys less_Suc_eq_le)
qed

lemma take1_take: "take 1 (take k xs) = [c] \<Longrightarrow> take 1 xs = [c]"
  by (cases xs; cases k) simp_all

lemma filter_take_drop:
  "filter P (filter P (take k xs) @ drop k xs) = filter P xs"
proof -
  have "filter P (take k xs @ drop k xs) = filter P xs" by simp
  then show ?thesis by (simp only: filter_append filter_filter) simp
qed

text \<open>
  C6. Let the mode be enabled, and let a Return or Enter key press reach it unaccepted,
  with the cursor at a position of the text; \<open>WordRight\<close> never moves a cursor to the
  left. Then the handler accepts the event, and the text it leaves is the old text up to
  the cursor, a newline, the indentation, and a tail. The indentation is the white space
  the line under the cursor begins with, or \<open>min_indent\<close> when that white space is shorter
  than \<open>min_indent\<close>. The tail is the old text from the cursor on, from which the handler
  may have removed blanks (it does so only when that text begins with a blank).
\<close>

theorem auto_indent_on_enter:
  assumes en: "enabled mode" and na: "\<not> accepted event"
    and ky: "key event = Key_Return \<or> key event = Key_Enter"
    and valid: "position tc \<le> length txt"
    and wr: "\<forall>t p. p \<le> word_right t p"
  shows "\<exists>tail tc'.
      key_pressed word_right mode event (txt, tc) =
        (event\<lparr>accepted := True\<rparr>,
         take (position tc) txt @ [newline]
           @ (if length (takeWhile py_isspace (line_text txt tc)) < length (min_indent mode)
              then min_indent mode else takeWhile py_isspace (line_text txt tc))
           @ tail,
         tc')
      \<and> filter (\<lambda>c. c \<noteq> CHR '' '') tail
          = filter (\<lambda>c. c \<noteq> CHR '' '') (drop (position tc) txt)
      \<and> (take 1 (drop (position tc) txt) \<noteq> '' '' \<longrightarrow> tail = drop (position tc) txt)"
proof -
  define pos where "pos = position tc"
  define indent where "indent =
    (if length (takeWhile py_isspace (line_text txt tc)) < length (min_indent mode)
     then min_indent mode else takeWhile py_isspace (line_text txt tc))"
  define rest where "rest = drop pos txt"
  define ins where "ins = [newline] @ indent"
  define txt1 where "txt1 = (take pos txt @ ins) @ rest"
  define p1 where "p1 = pos + length ins"
  define w where "w = word_right txt1 p1"
  define k where "k = w - p1"
  define sel where "sel = take k rest"
  define new where "new = filter (\<lambda>c. c \<noteq> CHR '' '') sel"
  have gi: "get_indent mode txt tc = (([], indent), tc\<lparr>position := pos, anchor := pos\<rparr>)"
    unfolding indent_def pos_def by (rule get_indent_eq[OF valid])
  have ple: "pos \<le> length txt" using valid by (simp add: pos_def)
  have len: "length (take pos txt) = pos" using ple by (simp add: min_absorb2)
  have ins1: "insertText ([] @ [newline] @ indent)
                (txt, tc\<lparr>position := pos, anchor := pos\<rparr>)
              = (txt1, tc\<lparr>position := p1, anchor := p1\<rparr>)"
    using ple by (simp add: insertText_def Let_def txt1_def p1_def ins_def rest_def min_absorb2)
  have mw: "move_WordRight word_right KeepAnchor txt1 (tc\<lparr>position := p1, anchor := p1\<rparr>)
            = tc\<lparr>position := w, anchor := p1\<rparr>"
    by (simp add: move_WordRight_def setPosition_def w_def)
  have wle: "p1 \<le> w" using wr by (simp add: w_def)
  have d1: "drop p1 txt1 = rest"
    unfolding txt1_def p1_def by (rule drop_length_append) (simp only: length_append len)
  have t1: "take p1 txt1 = take pos txt @ ins"
    unfolding txt1_def p1_def by (rule take_length_append) (simp only: length_append len)
  have sl: "selectedText txt1 (tc\<lparr>position := w, anchor := p1\<rparr>) = sel"
    using wle by (simp add: selectedText_def Let_def min_def max_def d1 sel_def k_def)
  have dw: "drop w txt1 = drop k rest"
  proof -
    have "drop w txt1 = drop (k + p1) txt1" using wle by (simp add: k_def)
    also have "\<dots> = drop k (drop p1 txt1)" by (simp only: drop_drop)
    finally show ?thesis by (simp only: d1)
  qed
  have main: "\<exists>tail tc'.
      key_pressed word_right mode event (txt, tc) =
        (event\<lparr>accepted := True\<rparr>, take pos txt @ [newline] @ indent @ tail, tc')
      \<and> filter (\<lambda>c. c \<noteq> CHR '' '') tail = filter (\<lambda>c. c \<noteq> CHR '' '') rest
      \<and> (take 1 rest \<noteq> '' '' \<longrightarrow> tail = rest)"
  proof (cases "take 1 sel = '' ''")
    case True
    have shorter: "length new < length sel"
      unfolding new_def by (rule filter_space_shorter[OF True])
    have ins2: "insertText new (txt1, tc\<lparr>position := w, anchor := p1\<rparr>)
        = (take p1 txt1 @ new @ drop w txt1,
           tc\<lparr>position := p1 + length new, anchor := p1 + length new\<rparr>)"
      using wle by (simp add: insertText_def Let_def min_def max_def)
    have res: "key_pressed word_right mode event (txt, tc) =
        (event\<lparr>accepted := True\<rparr>, take p1 txt1 @ new @ drop w txt1,
         tc\<lparr>position := p1 + length new, anchor := p1 + length new\<rparr>)"
      using en na ky True shorter
      by (simp add: key_pressed_def on_key_pressed_def gi ins1 mw sl
          new_def[symmetric] ins2 Let_def del: append.simps)
    have e1: "take p1 txt1 @ new @ drop w txt1
        = take pos txt @ [newline] @ indent @ (new @ drop k rest)"
      unfolding t1 dw ins_def by (simp only: append_assoc)
    have e2: "filter (\<lambda>c. c \<noteq> CHR '' '') (new @ drop k rest)
        = filter (\<lambda>c. c \<noteq> CHR '' '') rest"
      unfolding new_def sel_def by (rule filter_take_drop)
    have e3: "take 1 rest = '' ''"
      using True unfolding sel_def by (rule take1_take)
    show ?thesis
    proof (intro exI conjI impI)
      show "key_pressed word_right mode event (txt, tc) =
        (event\<lparr>accepted := True\<rparr>, take pos txt @ [newline] @ indent @ (new @ drop k rest),
         tc\<lparr>position := p1 + length new, anchor := p1 + length new\<rparr>)"
        by (simp only: res e1)
      show "filter (\<lambda>c. c \<noteq> CHR '' '') (new @ drop k rest)
        = filter (\<lambda>c. c \<noteq> CHR '' '') rest"
        by (rule e2)
      assume "take 1 rest \<noteq> '' ''"
      then show "new @ drop k rest = rest" using e3 by simp
    qed
  next
    case False
    have res: "key_pressed word_right mode event (txt, tc) =
        (event\<lparr>accepted := True\<rparr>, txt1, tc\<lparr>position := w, anchor := p1\<rparr>)"
      using en na ky False
      by (simp add: key_pressed_def on_key_pressed_def gi ins1 mw sl Let_def
          del: append.simps)
    have e1: "txt1 = take pos txt @ [newline] @ indent @ rest"
      unfolding txt1_def ins_def by (simp only: append_assoc)
    show ?thesis
    proof (intro exI conjI impI)
      show "key_pressed word_right mode event (txt, tc) =
        (event\<lparr>accepted := True\<rparr>, take pos txt @ [newline] @ indent @ rest,
         tc\<lparr>position := w, anchor := p1\<rparr>)"
        using res e1 by simp
      show "filter (\<lambda>c. c \<noteq> CHR '' '') rest = filter (\<lambda>c. c \<noteq> CHR '' '') rest"
        by (rule refl)
      show "rest = rest" by (rule refl)
    qed
  qed
  show ?thesis using main unfolding pos_def indent_def rest_def pos_def .
qed

theorem auto_indent_on_enter_witness:
  "enabled \<lparr>enabled = True, min_indent = []\<rparr>
   \<and> \<not> accepted \<lparr>key = Key_Return, accepted = False\<rparr>
   \<and> (key \<lparr>key = Key_Return, accepted = False\<rparr> = Key_Return
        \<or> key \<lparr>key = Key_Return, accepted = False\<rparr> = Key_Enter)
   \<and> position \<lparr>position = 3, anchor = 3\<rparr> \<le> length ''  ab''
   \<and> (\<forall>t p. p \<le> Suc p)
   \<and> (\<exists>tc'. key_pressed (\<lambda>t p. Suc p) \<lparr>enabled = True, min_indent = []\<rparr>
                \<lparr>key = Key_Return, accepted = False\<rparr>
                (''  ab'', \<lparr>position = 3, anchor = 3\<rparr>)
              = (\<lparr>key = Key_Return, accepted = True\<rparr>, ''  a'' @ [newline] @ ''  '' @ ''b'', tc'))"
proof -
  have lt: "line_text ''  ab'' \<lparr>position = 3, anchor = 3\<rparr> = ''  ab''"
    by (simp add: line_text_def block_start_def block_end_def newline_def)
  have sp: "py_isspace CHR '' ''" "\<not> py_isspace CHR ''a''"
    by (simp_all add: py_isspace_def)
  have h1: "enabled \<lparr>enabled = True, min_indent = []\<rparr>" by simp
  have h2: "\<not> accepted \<lparr>key = Key_Return, accepted = False\<rparr>" by simp
  have h3: "key \<lparr>key = Key_Return, accepted = False\<rparr> = Key_Return
        \<or> key \<lparr>key = Key_Return, accepted = False\<rparr> = Key_Enter" by simp
  have h4: "position \<lparr>position = 3, anchor = 3\<rparr> \<le> length ''  ab''" by simp
  have h5: "\<forall>t p. p \<le> (\<lambda>t p. Suc p) t p" by simp
  from auto_indent_on_enter [OF h1 h2 h3 h4 h5]
  obtain tail tc' where
    "key_pressed (\<lambda>t p. Suc p) \<lparr>enabled = True, min_indent = []\<rparr>
        \<lparr>key = Key_Return, accepted = False\<rparr> (''  ab'', \<lparr>position = 3, anchor = 3\<rparr>)
      = (\<lparr>key = Key_Return, accepted = True\<rparr>, ''  a'' @ [newline] @ ''  '' @ tail, tc')"
    and "tail = ''b''"
    by (auto simp add: lt sp)
  then show ?thesis by auto
qed

section \<open>The home key\<close>

text \<open>
  \<open>_do_home_key\<close> never changes a document. Where it leaves the cursor depends on the
  column: right of the indentation it lands on the first character after the indentation,
  at the end of the indentation it goes to the start of the block, and inside the
  indentation, where the count handed to \<open>movePosition\<close> is negative, it stays where it
  is.
\<close>

lemma do_home_key_keeps_text:
  "docs (snd (do_home_key event select a s)) = docs s
   \<and> toPlainText a (snd (do_home_key event select a s)) = toPlainText a s"
  by (simp add: do_home_key_def Let_def docs_upd_editor toPlainText_def editors_upd_editor)

lemma do_home_key_cursor:
  "position (text_cursor (editors (snd (do_home_key event select a s)) a)) =
     (let t = toPlainText a s; tc = text_cursor (editors s a)
      in if line_indent t tc < positionInBlock t tc
         then block_start t (position tc) + line_indent t tc
         else if positionInBlock t tc = line_indent t tc
         then block_start t (position tc)
         else position tc)"
proof -
  let ?t = "toPlainText a s" and ?tc = "text_cursor (editors s a)"
  have bs: "block_start ?t (position ?tc) \<le> position ?tc" by (rule block_start_le)
  show ?thesis
    using bs
    by (auto simp add: do_home_key_def Let_def editors_upd_editor move_Left_def
        move_StartOfBlock_def setPosition_def positionInBlock_def split: MoveMode.splits)
qed

lemma do_home_key_accepts:
  "fst (do_home_key (Some ev) select a s) = Some (ev\<lparr>accepted := True\<rparr>)"
  by (simp add: do_home_key_def Let_def)

text \<open>
  C9. The claim has the home key land on the first character that is not white space
  whenever the column differs from the indentation width. On the line \<open>"    x"\<close> with the
  cursor at column 2 the indentation width is 4, the column differs from it, and the
  cursor is left at column 2.
\<close>

theorem home_key_inside_indentation:
  "toPlainText 0 indented_world = ''    x''
   \<and> positionInBlock (toPlainText 0 indented_world) (text_cursor (editors indented_world 0)) = 2
   \<and> line_indent (toPlainText 0 indented_world) (text_cursor (editors indented_world 0)) = 4
   \<and> text_cursor (editors (snd (do_home_key None False 0 indented_world)) 0)
       = \<lparr>position = 2, anchor = 2\<rparr>"
  by (simp add: indented_world_def fresh_world_def new_editor_def toPlainText_def
      positionInBlock_def line_indent_def line_text_def block_start_def block_end_def
      newline_def py_isspace_def do_home_key_def Let_def editors_upd_editor move_Left_def)

end
